theory Spec2Isabelle
  imports Complex_Main "HOL-Library.Multiset"
begin

section \<open>Wotan: the path-enumeration and probability engine (analysis_main)\<close>

text \<open>
  The development embeds the functions of the analysis driver (the file that defines
  \<^verbatim>\<open>run_analysis\<close>, \<^verbatim>\<open>analyze_connection\<close>, \<^verbatim>\<open>set_node_distances\<close>, ...) as HOL
  functions.  Conventions:
  \<^item> a C++ \<^verbatim>\<open>int\<close> is a HOL \<open>int\<close>; coordinates, weights and counters of a routing
    graph stay far below \<open>2^31\<close>, and signed overflow (undefined in C++) is not modelled;
  \<^item> a node index is a \<open>nat\<close>; the node-indexed vectors are lists, and an index beyond
    the end of a vector (undefined behaviour in C++) is the error \<open>Index_Out_Of_Range\<close>;
  \<^item> \<^verbatim>\<open>float\<close> and \<^verbatim>\<open>double\<close> quantities (demands, probabilities, buckets) are
    \<open>real\<close>s: rounding, infinities and NaN are not modelled;
  \<^item> every \<^verbatim>\<open>WTHROW(EX_PATH_ENUM, ...)\<close> is a value \<open>Inl e\<close> of the result type
    \<open>wotan_error + 'a\<close>.
\<close>

subsection \<open>Errors\<close>

datatype wotan_error =
    Dest_Not_Single_Tile          \<comment> \<open>"Expected destination node to be localized to a single tile"\<close>
  | Node_Spans_Both_Directions    \<comment> \<open>"Node has a span in both the x and y directions"\<close>
  | Distance_Mismatch int int     \<comment> \<open>"Distance to source doesn't match distance to sink."\<close>
  | Probability_Gt_1 real         \<comment> \<open>"Got a probability > 1"\<close>
  | Probability_Lt_0 real         \<comment> \<open>"Got a probability < 0"\<close>
  | Routing_Node_Demand_Not_Set   \<comment> \<open>RELIABILITY\_POLYNOMIAL without use\_routing\_node\_demand\<close>
  | Modifier_Exceeds_Demand real real  \<comment> \<open>"modifier ... larger than node demand ..."\<close>
  | Unexpected_Pin_Type           \<comment> \<open>"Unexpected pin type"\<close>
  | Unexpected_Node_Type          \<comment> \<open>"Unexpected node type" (source of an enumeration)\<close>
  | Pin_Probs_Not_Equal real real \<comment> \<open>"Expecting probabilities of pins belonging to the same pin class to be equal."\<close>
  | Expected_Sink                 \<comment> \<open>"Expected node to be a sink."\<close>
  | Expected_Source               \<comment> \<open>"Expected node to be a source."\<close>
  | Negative_Probability real     \<comment> \<open>"Got negative connection probability"\<close>
  | PQ_Weight_Exceeded            \<comment> \<open>push onto the bounded priority queue above its bound\<close>
  | Index_Out_Of_Range            \<comment> \<open>a vector read or written beyond its end\<close>
  | External_Failure              \<comment> \<open>an exception of a collaborator that is not modelled\<close>

subsection \<open>The routing resource graph\<close>

datatype e_rr_type = SOURCE | SINK | IPIN | OPIN | CHANX | CHANY

datatype e_traversal_dir = FORWARD_TRAVERSAL | BACKWARD_TRAVERSAL

text \<open>
  Modelled from the spec: the class \<^verbatim>\<open>RR_Node\<close> is declared in a header that is not
  among the sources.  The record has the attributes that the analysis reads through the
  getters (type, footprint, weight, ptc, edge lists) and the demand counter, which the
  enumeration writes.  The arrays \<^verbatim>\<open>out_edges\<close> and \<^verbatim>\<open>in_edges\<close> come with their
  lengths (\<^verbatim>\<open>get_num_out_edges\<close>, \<^verbatim>\<open>get_num_in_edges\<close>), so they are lists here.
\<close>

record RR_Node =
  rr_type :: e_rr_type
  xlow :: int
  xhigh :: int
  ylow :: int
  yhigh :: int
  weight :: int
  ptc_num :: int
  out_edges :: "nat list"
  in_edges :: "nat list"
  demand :: real

type_synonym t_rr_node = "RR_Node list"

text \<open>
  Modelled from the spec: the macro \<^verbatim>\<open>UNDEFINED\<close>, the sentinel for "no value", is defined
  in a header that is not among the sources.  The spec speaks of a sentinel only; the
  value is the customary \<open>-1\<close>.  The theorems below use the value only through
  \<open>UNDEFINED < 0\<close>; the evaluations of the examples show it in cleared fields.
\<close>

definition UNDEFINED :: int where
  "UNDEFINED = - 1"

subsection \<open>Geometric pruning of the forward distance pass\<close>

text \<open>
  \<^verbatim>\<open>node_has_chance_to_reach_destination\<close>: the node ends a path of weight
  \<open>node_path_weight\<close> (its own weight included); the result says whether the destination
  tile \<open>(destx, desty)\<close> may still be reached within \<open>max_path_weight\<close>.
  \<open>node_xy_diff\<close> is the \<^verbatim>\<open>if\<close>-cascade that sets \<^verbatim>\<open>x_diff\<close> and \<^verbatim>\<open>y_diff\<close>.
\<close>

definition node_xy_diff :: "RR_Node \<Rightarrow> int \<Rightarrow> int \<Rightarrow> wotan_error + (int \<times> int)" where
  "node_xy_diff n destx desty =
     (if xlow n = xhigh n then
        \<comment> \<open>node spans in y-direction\<close>
        (if desty \<le> yhigh n \<and> desty \<ge> ylow n then Inr (\<bar>destx - xlow n\<bar>, 0)
         else if desty > yhigh n then Inr (\<bar>destx - xlow n\<bar>, desty - yhigh n)
         else Inr (\<bar>destx - xlow n\<bar>, ylow n - desty))
      else if ylow n = yhigh n then
        \<comment> \<open>node spans in x-direction\<close>
        (if destx \<le> xhigh n \<and> destx \<ge> xlow n then Inr (0, \<bar>desty - ylow n\<bar> - 1)
         else if destx > xhigh n then Inr (destx - xhigh n, \<bar>desty - ylow n\<bar>)
         else Inr (xlow n - destx, \<bar>desty - ylow n\<bar>))
      else Inl Node_Spans_Both_Directions)"

definition node_has_chance_to_reach_destination ::
  "nat \<Rightarrow> int \<Rightarrow> int \<Rightarrow> int \<Rightarrow> int \<Rightarrow> t_rr_node \<Rightarrow> wotan_error + bool" where
  "node_has_chance_to_reach_destination node_ind destx desty node_path_weight max_path_weight rr_node =
     (case node_xy_diff (rr_node ! node_ind) destx desty of
        Inl e \<Rightarrow> Inl e
      | Inr (x_diff, y_diff) \<Rightarrow>
          (let remaining_lower_bound = max (x_diff + y_diff - 1) 0
           in Inr (node_path_weight + remaining_lower_bound \<le> max_path_weight)))"

subsection \<open>Source/sink distances of a node\<close>

text \<open>
  Modelled from the spec: the class \<^verbatim>\<open>SS_Distances\<close> is declared in a header that is not
  among the sources.  The spec (data model) gives it four fields, \<open>source_distance\<close>,
  \<open>sink_distance\<close>, \<open>source_hops\<close>, \<open>sink_hops\<close>, and four visited flags.
\<close>

record SS_Distances =
  source_distance :: int
  sink_distance :: int
  source_hops :: int
  sink_hops :: int
  visited_from_source :: bool
  visited_from_sink :: bool
  visited_from_source_hops :: bool
  visited_from_sink_hops :: bool

type_synonym t_ss_distances = "SS_Distances list"
type_synonym t_nodes_visited = "nat list"

text \<open>
  Modelled from the spec: \<^verbatim>\<open>SS_Distances::clear\<close> is not among the sources; the spec says
  "clearing resets all fields".  The distances and hops go back to \<open>UNDEFINED\<close>, the
  flags to false.
\<close>

definition SS_Distances_clear :: "SS_Distances \<Rightarrow> SS_Distances" where
  "SS_Distances_clear s =
     \<lparr>source_distance = UNDEFINED, sink_distance = UNDEFINED,
      source_hops = UNDEFINED, sink_hops = UNDEFINED,
      visited_from_source = False, visited_from_sink = False,
      visited_from_source_hops = False, visited_from_sink_hops = False\<rparr>"

text \<open>
  Modelled from the spec: \<^verbatim>\<open>SS_Distances::is_legal\<close> is not among the sources; the spec
  defines \<open>is_legal(node_weight, W)\<close> as
  \<open>source_distance + sink_distance - node_weight \<le> W\<close> and both (distance) flags set.
\<close>

definition is_legal :: "SS_Distances \<Rightarrow> int \<Rightarrow> int \<Rightarrow> bool" where
  "is_legal s node_weight max_path_weight \<longleftrightarrow>
     source_distance s + sink_distance s - node_weight \<le> max_path_weight
     \<and> visited_from_source s \<and> visited_from_sink s"

subsection \<open>The bounded priority queue\<close>

text \<open>
  Modelled from the spec: the class \<^verbatim>\<open>My_Bounded_Priority_Queue\<close> is not among the sources.
  The spec describes a min-priority queue keyed by a small integer weight and parameterised
  by a maximum weight: \<open>push(item, weight)\<close> fails when the weight exceeds the maximum,
  \<open>top\<close>, \<open>top_weight\<close> and \<open>pop\<close> work on an item of least weight, and the order among
  items of equal weight is unspecified but deterministic.  Here the entries are kept sorted
  by weight, first in first out among equal weights; the head of the list is the top.
\<close>

record My_Bounded_Priority_Queue =
  pq_max_weight :: int
  pq_entries :: "(nat \<times> int) list"

fun pq_insert :: "nat \<times> int \<Rightarrow> (nat \<times> int) list \<Rightarrow> (nat \<times> int) list" where
  "pq_insert e [] = [e]"
| "pq_insert e (x # xs) = (if snd e < snd x then e # x # xs else x # pq_insert e xs)"

definition PQ_new :: "int \<Rightarrow> My_Bounded_Priority_Queue" where
  "PQ_new max_weight = \<lparr>pq_max_weight = max_weight, pq_entries = []\<rparr>"

definition PQ_push :: "My_Bounded_Priority_Queue \<Rightarrow> nat \<Rightarrow> int \<Rightarrow> wotan_error + My_Bounded_Priority_Queue" where
  "PQ_push pq item w =
     (if w > pq_max_weight pq then Inl PQ_Weight_Exceeded
      else Inr (pq\<lparr>pq_entries := pq_insert (item, w) (pq_entries pq)\<rparr>))"

subsection \<open>The distance pass\<close>

text \<open>
  \<open>visited_dir\<close> is the test "has this node been visited in this direction" that
  \<^verbatim>\<open>put_children_on_pq_and_set_ss_distance\<close> makes at the head of its loop body;
  \<open>relax_child\<close> is that loop body for one entry of the edge list, \<open>relax_children\<close> the
  loop over the edge list.  A \<^verbatim>\<open>continue\<close> returns the state of the iteration as it is.
\<close>

definition visited_dir :: "e_traversal_dir \<Rightarrow> SS_Distances \<Rightarrow> bool" where
  "visited_dir dir s = (case dir of FORWARD_TRAVERSAL \<Rightarrow> visited_from_source s
                                  | BACKWARD_TRAVERSAL \<Rightarrow> visited_from_sink s)"

definition relax_child ::
  "int \<Rightarrow> int \<Rightarrow> int \<Rightarrow> int \<Rightarrow> e_traversal_dir \<Rightarrow> t_rr_node \<Rightarrow> nat
   \<Rightarrow> t_ss_distances \<times> My_Bounded_Priority_Queue
   \<Rightarrow> wotan_error + (t_ss_distances \<times> My_Bounded_Priority_Queue)" where
  "relax_child destx desty base_weight max_path_weight traversal_dir rr_node node_ind st =
     (case st of (ss_distances, PQ) \<Rightarrow>
      if node_ind \<ge> length ss_distances \<or> node_ind \<ge> length rr_node then Inl Index_Out_Of_Range
      else if visited_dir traversal_dir (ss_distances ! node_ind) then Inr (ss_distances, PQ)
      else
        (let node_weight = weight (rr_node ! node_ind);
             path_weight = base_weight + node_weight
         in case traversal_dir of
              FORWARD_TRAVERSAL \<Rightarrow>
                (case node_has_chance_to_reach_destination node_ind destx desty path_weight
                        max_path_weight rr_node of
                   Inl e \<Rightarrow> Inl e
                 | Inr False \<Rightarrow> Inr (ss_distances, PQ)
                 | Inr True \<Rightarrow>
                     (case PQ_push PQ node_ind path_weight of
                        Inl e \<Rightarrow> Inl e
                      | Inr PQ' \<Rightarrow>
                          Inr (ss_distances[node_ind := (ss_distances ! node_ind)
                                 \<lparr>source_distance := path_weight, visited_from_source := True\<rparr>], PQ')))
            | BACKWARD_TRAVERSAL \<Rightarrow>
                (let marked = (ss_distances ! node_ind)
                                \<lparr>sink_distance := path_weight, visited_from_sink := True\<rparr>
                 in if \<not> is_legal marked node_weight max_path_weight
                    then Inr (ss_distances[node_ind := marked
                                \<lparr>sink_distance := UNDEFINED, visited_from_sink := False\<rparr>], PQ)
                    else (case PQ_push PQ node_ind path_weight of
                            Inl e \<Rightarrow> Inl e
                          | Inr PQ' \<Rightarrow> Inr (ss_distances[node_ind := marked], PQ')))))"

fun relax_children ::
  "int \<Rightarrow> int \<Rightarrow> int \<Rightarrow> int \<Rightarrow> e_traversal_dir \<Rightarrow> t_rr_node \<Rightarrow> nat list
   \<Rightarrow> t_ss_distances \<times> My_Bounded_Priority_Queue
   \<Rightarrow> wotan_error + (t_ss_distances \<times> My_Bounded_Priority_Queue)" where
  "relax_children destx desty base_weight max_path_weight traversal_dir rr_node [] st = Inr st"
| "relax_children destx desty base_weight max_path_weight traversal_dir rr_node (node_ind # rest) st =
     (case relax_child destx desty base_weight max_path_weight traversal_dir rr_node node_ind st of
        Inl e \<Rightarrow> Inl e
      | Inr st' \<Rightarrow> relax_children destx desty base_weight max_path_weight traversal_dir rr_node rest st')"

definition put_children_on_pq_and_set_ss_distance ::
  "nat list \<Rightarrow> int \<Rightarrow> t_ss_distances \<Rightarrow> int \<Rightarrow> e_traversal_dir \<Rightarrow> t_rr_node \<Rightarrow> nat
   \<Rightarrow> My_Bounded_Priority_Queue
   \<Rightarrow> wotan_error + (t_ss_distances \<times> My_Bounded_Priority_Queue)" where
  "put_children_on_pq_and_set_ss_distance edge_list base_weight ss_distances max_path_weight
       traversal_dir rr_node to_node_ind PQ =
     (if to_node_ind \<ge> length rr_node then Inl Index_Out_Of_Range
      else
        (let dest = rr_node ! to_node_ind
         in if xlow dest \<noteq> xhigh dest \<or> ylow dest \<noteq> yhigh dest then Inl Dest_Not_Single_Tile
            else relax_children (xlow dest) (ylow dest) base_weight max_path_weight traversal_dir
                   rr_node edge_list (ss_distances, PQ)))"

text \<open>
  The Dijkstra loop of \<^verbatim>\<open>set_node_distances\<close> ends: a node is pushed only when it turns
  from unvisited to visited, so twice the number of unvisited nodes plus the size of the
  queue decreases with every pop.
\<close>

definition dist_measure :: "e_traversal_dir \<Rightarrow> t_ss_distances \<Rightarrow> My_Bounded_Priority_Queue \<Rightarrow> nat" where
  "dist_measure dir ss pq = 2 * length (filter (\<lambda>s. \<not> visited_dir dir s) ss) + length (pq_entries pq)"

lemma length_pq_insert: "length (pq_insert e xs) = Suc (length xs)"
  by (induction xs) auto

lemma filter_length_update:
  "i < length xs \<Longrightarrow>
   length (filter P (xs[i := v])) + (if P (xs ! i) then 1 else 0)
     = length (filter P xs) + (if P v then 1 else 0)"
proof (induction xs arbitrary: i)
  case Nil
  then show ?case by simp
next
  case (Cons x xs)
  then show ?case by (cases i) auto
qed

lemma unvisited_mark:
  assumes "c < length ss" "\<not> visited_dir dir (ss ! c)" "visited_dir dir v"
  shows "Suc (length (filter (\<lambda>s. \<not> visited_dir dir s) (ss[c := v])))
           = length (filter (\<lambda>s. \<not> visited_dir dir s) ss)"
  using filter_length_update [OF assms(1), of "\<lambda>s. \<not> visited_dir dir s" v] assms(2,3) by simp

lemma unvisited_keep:
  assumes "c < length ss" "\<not> visited_dir dir (ss ! c)" "\<not> visited_dir dir v"
  shows "length (filter (\<lambda>s. \<not> visited_dir dir s) (ss[c := v]))
           = length (filter (\<lambda>s. \<not> visited_dir dir s) ss)"
  using filter_length_update [OF assms(1), of "\<lambda>s. \<not> visited_dir dir s" v] assms(2,3) by simp

lemma relax_child_measure:
  assumes "relax_child dx dy b W dir rr c (ss, pq) = Inr (ss', pq')"
  shows "dist_measure dir ss' pq' \<le> dist_measure dir ss pq"
proof (cases "c < length ss \<and> \<not> visited_dir dir (ss ! c)")
  case False
  with assms show ?thesis
    by (auto simp: relax_child_def split: if_splits)
next
  case True
  then have c: "c < length ss" and nv: "\<not> visited_dir dir (ss ! c)" by auto
  show ?thesis
  proof (cases dir)
    case FORWARD_TRAVERSAL
    let ?w = "b + weight (rr ! c)"
    have m: "visited_dir dir ((ss ! c)\<lparr>source_distance := ?w, visited_from_source := True\<rparr>)"
      by (simp add: visited_dir_def FORWARD_TRAVERSAL)
    from assms c nv FORWARD_TRAVERSAL unvisited_mark [OF c nv m] show ?thesis
      by (auto simp: relax_child_def dist_measure_def Let_def PQ_push_def length_pq_insert
          split: if_splits sum.splits bool.splits)
  next
    case BACKWARD_TRAVERSAL
    let ?w = "b + weight (rr ! c)"
    have m: "visited_dir dir ((ss ! c)\<lparr>sink_distance := ?w, visited_from_sink := True\<rparr>)"
      by (simp add: visited_dir_def BACKWARD_TRAVERSAL)
    have k: "\<not> visited_dir dir ((ss ! c)\<lparr>sink_distance := ?w, visited_from_sink := True,
                   sink_distance := UNDEFINED, visited_from_sink := False\<rparr>)"
      by (simp add: visited_dir_def BACKWARD_TRAVERSAL)
    from assms c nv BACKWARD_TRAVERSAL unvisited_mark [OF c nv m] unvisited_keep [OF c nv k]
    show ?thesis
      by (auto simp: relax_child_def dist_measure_def Let_def PQ_push_def length_pq_insert
          split: if_splits sum.splits bool.splits)
  qed
qed

lemma relax_children_measure:
  "relax_children dx dy b W dir rr cs (ss, pq) = Inr (ss', pq')
   \<Longrightarrow> dist_measure dir ss' pq' \<le> dist_measure dir ss pq"
proof (induction cs arbitrary: ss pq)
  case Nil
  then show ?case by simp
next
  case (Cons c cs)
  from Cons.prems obtain ss1 pq1 where
    s1: "relax_child dx dy b W dir rr c (ss, pq) = Inr (ss1, pq1)" and
    s2: "relax_children dx dy b W dir rr cs (ss1, pq1) = Inr (ss', pq')"
    by (auto split: sum.splits)
  from relax_child_measure [OF s1] Cons.IH [OF s2] show ?case by simp
qed


lemma put_children_measure:
  "put_children_on_pq_and_set_ss_distance cs b ss W dir rr to pq = Inr (ss', pq')
   \<Longrightarrow> dist_measure dir ss' pq' \<le> dist_measure dir ss pq"
  by (auto simp: put_children_on_pq_and_set_ss_distance_def Let_def
      split: if_splits dest: relax_children_measure)

text \<open>
  \<^verbatim>\<open>set_node_distances\<close>: \<open>set_node_distances_loop\<close> is its \<^verbatim>\<open>while (PQ.size() != 0)\<close>
  loop, popping the head (\<open>top\<close>, \<open>top_weight\<close>, \<open>pop\<close>), relaxing the children and
  appending the node to \<open>nodes_visited\<close>.
\<close>

function set_node_distances_loop ::
  "nat \<Rightarrow> t_rr_node \<Rightarrow> int \<Rightarrow> e_traversal_dir \<Rightarrow> My_Bounded_Priority_Queue
   \<Rightarrow> t_ss_distances \<Rightarrow> t_nodes_visited \<Rightarrow> wotan_error + (t_ss_distances \<times> t_nodes_visited)" where
  "set_node_distances_loop to_node_ind rr_node max_path_weight traversal_dir PQ ss_distances nodes_visited =
     (case pq_entries PQ of
        [] \<Rightarrow> Inr (ss_distances, nodes_visited)
      | (node_ind, node_path_weight) # rest \<Rightarrow>
          if node_ind \<ge> length rr_node then Inl Index_Out_Of_Range
          else
            (let edge_list = (case traversal_dir of
                                FORWARD_TRAVERSAL \<Rightarrow> out_edges (rr_node ! node_ind)
                              | BACKWARD_TRAVERSAL \<Rightarrow> in_edges (rr_node ! node_ind))
             in case put_children_on_pq_and_set_ss_distance edge_list node_path_weight ss_distances
                       max_path_weight traversal_dir rr_node to_node_ind (PQ\<lparr>pq_entries := rest\<rparr>) of
                  Inl e \<Rightarrow> Inl e
                | Inr (ss_distances', PQ') \<Rightarrow>
                    set_node_distances_loop to_node_ind rr_node max_path_weight traversal_dir PQ'
                      ss_distances' (nodes_visited @ [node_ind])))"
  by pat_completeness auto
termination
proof (relation "measure (\<lambda>(to, rr, W, dir, pq, ss, nv). dist_measure dir ss pq)", goal_cases)
  case 1
  show ?case by simp
next
  case (2 to rr W dir pq ss nv e rest n w edges res ss' pq')
  from 2 have "put_children_on_pq_and_set_ss_distance edges w ss W dir rr to (pq\<lparr>pq_entries := rest\<rparr>)
                 = Inr (ss', pq')"
    by simp
  from put_children_measure [OF this] 2 show ?case
    by (simp add: dist_measure_def)
qed

definition set_node_distances ::
  "nat \<Rightarrow> nat \<Rightarrow> t_rr_node \<Rightarrow> t_ss_distances \<Rightarrow> int \<Rightarrow> e_traversal_dir \<Rightarrow> t_nodes_visited
   \<Rightarrow> wotan_error + (t_ss_distances \<times> t_nodes_visited)" where
  "set_node_distances from_node_ind to_node_ind rr_node ss_distances max_path_weight traversal_dir
       nodes_visited =
     (case PQ_push (PQ_new max_path_weight) from_node_ind 0 of
        Inl e \<Rightarrow> Inl e
      | Inr PQ \<Rightarrow>
          if from_node_ind \<ge> length ss_distances then Inl Index_Out_Of_Range
          else
            (let from_s = ss_distances ! from_node_ind;
                 ss_distances' = ss_distances[from_node_ind :=
                   (case traversal_dir of
                      FORWARD_TRAVERSAL \<Rightarrow> from_s\<lparr>source_distance := 0, visited_from_source := True\<rparr>
                    | BACKWARD_TRAVERSAL \<Rightarrow> from_s\<lparr>sink_distance := 0, visited_from_sink := True\<rparr>)]
             in set_node_distances_loop to_node_ind rr_node max_path_weight traversal_dir PQ
                  ss_distances' nodes_visited))"

subsection \<open>Reference formulas for the pruning rule\<close>

text \<open>
  The distance along one axis from the interval \<open>[lo, hi]\<close> of a footprint to a coordinate
  (for \<open>lo \<le> hi\<close>; the order of the tests is that of the code).
\<close>

definition axis_dist :: "int \<Rightarrow> int \<Rightarrow> int \<Rightarrow> int" where
  "axis_dist lo hi d = (if lo \<le> d \<and> d \<le> hi then 0 else if d > hi then d - hi else lo - d)"

text \<open>
  The rule as the specification words it: \<open>\<delta> = 1\<close> exactly when the footprint of the node
  overlaps the column or the row of the destination, else \<open>\<delta> = 0\<close>.
\<close>

definition spec_overlaps :: "RR_Node \<Rightarrow> int \<Rightarrow> int \<Rightarrow> bool" where
  "spec_overlaps n destx desty \<longleftrightarrow>
     (xlow n \<le> destx \<and> destx \<le> xhigh n) \<or> (ylow n \<le> desty \<and> desty \<le> yhigh n)"

definition spec_prune_condition :: "RR_Node \<Rightarrow> int \<Rightarrow> int \<Rightarrow> int \<Rightarrow> int \<Rightarrow> bool" where
  "spec_prune_condition n destx desty node_path_weight max_path_weight \<longleftrightarrow>
     node_path_weight
       + max (axis_dist (xlow n) (xhigh n) destx + axis_dist (ylow n) (yhigh n) desty
               - (if spec_overlaps n destx desty then 1 else 0)) 0
     > max_path_weight"

text \<open>
  The rule of the code: one is always subtracted, and one more when the node spans several
  columns and the destination column is among them.
\<close>

definition code_delta :: "RR_Node \<Rightarrow> int \<Rightarrow> int" where
  "code_delta n destx = (if xlow n \<noteq> xhigh n \<and> xlow n \<le> destx \<and> destx \<le> xhigh n then 2 else 1)"

definition code_prune_condition :: "RR_Node \<Rightarrow> int \<Rightarrow> int \<Rightarrow> int \<Rightarrow> int \<Rightarrow> bool" where
  "code_prune_condition n destx desty node_path_weight max_path_weight \<longleftrightarrow>
     node_path_weight
       + max (axis_dist (xlow n) (xhigh n) destx + axis_dist (ylow n) (yhigh n) desty
               - code_delta n destx) 0
     > max_path_weight"

definition mk_node :: "e_rr_type \<Rightarrow> int \<Rightarrow> int \<Rightarrow> int \<Rightarrow> int \<Rightarrow> int \<Rightarrow> int \<Rightarrow> nat list \<Rightarrow> nat list \<Rightarrow> RR_Node" where
  "mk_node t xl xh yl yh w p outs ins =
     \<lparr>rr_type = t, xlow = xl, xhigh = xh, ylow = yl, yhigh = yh, weight = w, ptc_num = p,
      out_edges = outs, in_edges = ins, demand = 0\<rparr>"

definition SS_fresh :: SS_Distances where
  "SS_fresh = \<lparr>source_distance = UNDEFINED, sink_distance = UNDEFINED,
      source_hops = UNDEFINED, sink_hops = UNDEFINED,
      visited_from_source = False, visited_from_sink = False,
      visited_from_source_hops = False, visited_from_sink_hops = False\<rparr>"

text \<open>A source and its output pin at tile (1,1), a sink at tile (4,4).\<close>

definition far_rr :: t_rr_node where
  "far_rr = [mk_node SOURCE 1 1 1 1 0 0 [1] [],
             mk_node OPIN 1 1 1 1 0 0 [] [0],
             mk_node SINK 4 4 4 4 0 0 [] []]"

definition far_ss :: t_ss_distances where
  "far_ss = [SS_fresh\<lparr>source_distance := 0, visited_from_source := True\<rparr>, SS_fresh, SS_fresh]"

lemma node_xy_diff_axis:
  assumes "xlow n = xhigh n \<or> ylow n = yhigh n"
  shows "\<exists>xd yd. node_xy_diff n destx desty = Inr (xd, yd) \<and>
           xd + yd - 1 = axis_dist (xlow n) (xhigh n) destx + axis_dist (ylow n) (yhigh n) desty
                          - code_delta n destx"
  using assms by (auto simp: node_xy_diff_def axis_dist_def code_delta_def)

lemma has_chance_code_prune:
  assumes "xlow (rr ! i) = xhigh (rr ! i) \<or> ylow (rr ! i) = yhigh (rr ! i)"
  shows "node_has_chance_to_reach_destination i destx desty pw W rr
           = Inr (\<not> code_prune_condition (rr ! i) destx desty pw W)"
proof -
  from node_xy_diff_axis [OF assms, of destx desty] obtain xd yd where
    d: "node_xy_diff (rr ! i) destx desty = Inr (xd, yd)" and
    e: "xd + yd - 1 = axis_dist (xlow (rr ! i)) (xhigh (rr ! i)) destx
                       + axis_dist (ylow (rr ! i)) (yhigh (rr ! i)) desty - code_delta (rr ! i) destx"
    by blast
  show ?thesis
    by (simp add: node_has_chance_to_reach_destination_def d Let_def code_prune_condition_def e [symmetric] not_less)
qed

subsection \<open>Claim C1: the pruning rule of the forward distance pass\<close>

text \<open>
  Claim C1, as amended.  In the forward distance pass, a child of the edge list that has
  not been visited from the source, and whose footprint does not extend in both directions,
  is pruned (the iteration leaves the distances and the queue as they are) if and only if
  \<open>node_path_weight + max (x_diff + y_diff - \<delta>) 0 > max_path_weight\<close>, where
  \<open>node_path_weight\<close> is the weight of the path up to and including the child,
  \<open>(x_diff, y_diff)\<close> is the axis-aligned distance from the footprint of the child to the
  tile of the destination, and \<open>\<delta>\<close> is 2 when the child spans several columns and the
  destination column is one of them, and 1 in every other case.
\<close>

theorem forward_child_pruned_iff:
  assumes "node_ind < length ss_distances" and "node_ind < length rr_node"
    and "\<not> visited_from_source (ss_distances ! node_ind)"
    and "xlow (rr_node ! node_ind) = xhigh (rr_node ! node_ind)
         \<or> ylow (rr_node ! node_ind) = yhigh (rr_node ! node_ind)"
  shows "relax_child destx desty base_weight max_path_weight FORWARD_TRAVERSAL rr_node node_ind
           (ss_distances, PQ) = Inr (ss_distances, PQ)
         \<longleftrightarrow> code_prune_condition (rr_node ! node_ind) destx desty
               (base_weight + weight (rr_node ! node_ind)) max_path_weight"
proof -
  let ?n = "rr_node ! node_ind"
  let ?pw = "base_weight + weight ?n"
  have hc: "node_has_chance_to_reach_destination node_ind destx desty ?pw max_path_weight rr_node
              = Inr (\<not> code_prune_condition ?n destx desty ?pw max_path_weight)"
    by (rule has_chance_code_prune [OF assms(4)])
  show ?thesis
  proof (cases "code_prune_condition ?n destx desty ?pw max_path_weight")
    case True
    with hc assms(1-3) show ?thesis
      by (simp add: relax_child_def visited_dir_def Let_def)
  next
    case False
    have "ss_distances[node_ind := (ss_distances ! node_ind)
             \<lparr>source_distance := ?pw, visited_from_source := True\<rparr>] \<noteq> ss_distances"
    proof
      assume eq: "ss_distances[node_ind := (ss_distances ! node_ind)
             \<lparr>source_distance := ?pw, visited_from_source := True\<rparr>] = ss_distances"
      have "visited_from_source (ss_distances[node_ind := (ss_distances ! node_ind)
             \<lparr>source_distance := ?pw, visited_from_source := True\<rparr>] ! node_ind)"
        using assms(1) by simp
      with eq assms(3) show False by simp
    qed
    with False hc assms(1-3) show ?thesis
      by (auto simp: relax_child_def visited_dir_def Let_def split: sum.splits)
  qed
qed

theorem forward_child_pruned_iff_witness:
  "(1::nat) < length far_ss \<and> 1 < length far_rr \<and> \<not> visited_from_source (far_ss ! 1)
   \<and> (xlow (far_rr ! 1) = xhigh (far_rr ! 1) \<or> ylow (far_rr ! 1) = yhigh (far_rr ! 1))
   \<and> (relax_child 4 4 0 4 FORWARD_TRAVERSAL far_rr 1 (far_ss, PQ_new 4) = Inr (far_ss, PQ_new 4)
        \<longleftrightarrow> code_prune_condition (far_rr ! 1) 4 4 (0 + weight (far_rr ! 1)) 4)
   \<and> code_prune_condition (far_rr ! 1) 4 4 (0 + weight (far_rr ! 1)) 4"
  using forward_child_pruned_iff [of 1 far_ss far_rr 4 4 0 4 "PQ_new 4"]
  by (simp add: far_ss_def far_rr_def mk_node_def SS_fresh_def code_prune_condition_def
      axis_dist_def code_delta_def)

text \<open>
  The claim as it was stated has \<open>\<delta> = 1\<close> exactly when the child overlaps the column or
  the row of the destination, hence \<open>\<delta> = 0\<close> for the output pin at tile (1,1) and the
  destination at tile (4,4): the claimed bound is 6 and the pin would be pruned for a
  maximum path weight of 5.  The code subtracts one all the same, and keeps the pin.
\<close>

theorem forward_prune_claimed_rule_counterexample:
  "\<not> (relax_child 4 4 0 5 FORWARD_TRAVERSAL far_rr 1 (far_ss, PQ_new 5) = Inr (far_ss, PQ_new 5)
       \<longleftrightarrow> spec_prune_condition (far_rr ! 1) 4 4 (0 + weight (far_rr ! 1)) 5)"
  by (simp add: far_ss_def far_rr_def mk_node_def SS_fresh_def spec_prune_condition_def
      spec_overlaps_def axis_dist_def relax_child_def visited_dir_def Let_def
      node_has_chance_to_reach_destination_def node_xy_diff_def PQ_push_def PQ_new_def)

subsection \<open>Distances of a pair and the tightened maximum path weight\<close>

text \<open>
  \<^verbatim>\<open>PATH_FLEXIBILITY_FACTOR\<close> is the literal \<^verbatim>\<open>1.3\<close>.  The code multiplies an \<^verbatim>\<open>int\<close>
  by it in double precision and applies \<^verbatim>\<open>ceil\<close>; here the product is exact.  For a
  32-bit distance \<open>d\<close> the two agree: the \<^verbatim>\<open>double\<close> nearest to 1.3 exceeds 1.3 by a
  relative error below \<open>2^-54\<close>, so when \<open>d\<close> is a multiple of 10 the exact product
  with that \<^verbatim>\<open>double\<close> lies within half a unit in the last place of the integer
  \<open>13 * d / 10\<close> and is rounded to it, and otherwise \<open>13 * d / 10\<close> is at least 0.1 away
  from every integer while the computed product is within \<open>10^-6\<close> of it.
\<close>

definition PATH_FLEXIBILITY_FACTOR :: real where
  "PATH_FLEXIBILITY_FACTOR = 13 / 10"

text \<open>
  \<^verbatim>\<open>get_ss_distances_and_adjust_max_path_weight\<close>.  The two output parameters
  \<^verbatim>\<open>adjusted_max_path_weight\<close> and \<^verbatim>\<open>source_sink_dist\<close> are the last two components of
  the result.
\<close>

definition get_ss_distances_and_adjust_max_path_weight ::
  "nat \<Rightarrow> nat \<Rightarrow> t_rr_node \<Rightarrow> t_ss_distances \<Rightarrow> int \<Rightarrow> t_nodes_visited
   \<Rightarrow> wotan_error + (t_ss_distances \<times> t_nodes_visited \<times> int \<times> int)" where
  "get_ss_distances_and_adjust_max_path_weight source_node_ind sink_node_ind rr_node ss_distances
       max_path_weight nodes_visited =
     (case set_node_distances source_node_ind sink_node_ind rr_node ss_distances max_path_weight
             FORWARD_TRAVERSAL nodes_visited of
        Inl e \<Rightarrow> Inl e
      | Inr (ss1, nv1) \<Rightarrow>
     (case set_node_distances sink_node_ind source_node_ind rr_node ss1 max_path_weight
             BACKWARD_TRAVERSAL nv1 of
        Inl e \<Rightarrow> Inl e
      | Inr (ss2, nv2) \<Rightarrow>
          (let min_dist_sink = source_distance (ss2 ! sink_node_ind);
               min_dist_source = sink_distance (ss2 ! source_node_ind)
           in if min_dist_sink \<noteq> min_dist_source
              then Inl (Distance_Mismatch min_dist_source min_dist_sink)
              else Inr (ss2, nv2,
                        min \<lceil>of_int min_dist_sink * PATH_FLEXIBILITY_FACTOR\<rceil> max_path_weight,
                        min_dist_sink))))"

text \<open>
  A source at tile (1,1), its output pin, a wire of weight 1 over the tiles (1,1) and (2,1),
  an input pin and the sink at tile (2,1).
\<close>

definition line_rr :: t_rr_node where
  "line_rr = [mk_node SOURCE 1 1 1 1 0 0 [1] [],
              mk_node OPIN 1 1 1 1 0 0 [2] [0],
              mk_node CHANX 1 2 1 1 1 0 [3] [1],
              mk_node IPIN 2 2 1 1 0 0 [4] [2],
              mk_node SINK 2 2 1 1 0 1 [] [3]]"

definition fresh_ss :: "nat \<Rightarrow> t_ss_distances" where
  "fresh_ss n = replicate n SS_fresh"

definition line_ss_forward :: t_ss_distances where
  "line_ss_forward =
     [SS_fresh\<lparr>source_distance := 0, visited_from_source := True\<rparr>,
      SS_fresh\<lparr>source_distance := 0, visited_from_source := True\<rparr>,
      SS_fresh\<lparr>source_distance := 1, visited_from_source := True\<rparr>,
      SS_fresh\<lparr>source_distance := 1, visited_from_source := True\<rparr>,
      SS_fresh\<lparr>source_distance := 1, visited_from_source := True\<rparr>]"

definition line_ss_both :: t_ss_distances where
  "line_ss_both =
     [SS_fresh\<lparr>source_distance := 0, visited_from_source := True, sink_distance := 1, visited_from_sink := True\<rparr>,
      SS_fresh\<lparr>source_distance := 0, visited_from_source := True, sink_distance := 1, visited_from_sink := True\<rparr>,
      SS_fresh\<lparr>source_distance := 1, visited_from_source := True, sink_distance := 1, visited_from_sink := True\<rparr>,
      SS_fresh\<lparr>source_distance := 1, visited_from_source := True, sink_distance := 0, visited_from_sink := True\<rparr>,
      SS_fresh\<lparr>source_distance := 1, visited_from_source := True, sink_distance := 0, visited_from_sink := True\<rparr>]"

lemma line_forward_pass:
  "set_node_distances 0 4 line_rr (fresh_ss 5) 3 FORWARD_TRAVERSAL [] = Inr (line_ss_forward, [0, 1, 2, 3, 4])"
  by code_simp

lemma line_backward_pass:
  "set_node_distances 4 0 line_rr line_ss_forward 3 BACKWARD_TRAVERSAL [0, 1, 2, 3, 4]
     = Inr (line_ss_both, [0, 1, 2, 3, 4, 4, 3, 2, 1, 0])"
  by code_simp

subsection \<open>Claim C2: agreement of the two distances and the tightened weight\<close>

text \<open>
  Claim C2.  After the forward pass from the source and the backward pass from the sink,
  \<^verbatim>\<open>get_ss_distances_and_adjust_max_path_weight\<close> compares the distance of the sink from
  the source with the distance of the source from the sink.  If they differ it fails with
  the invariant violation \<open>Distance_Mismatch\<close>; if they agree on \<open>min_dist\<close> it returns the
  adjusted maximum path weight \<open>min max_path_weight \<lceil>min_dist * 1.3\<rceil>\<close> together with
  \<open>min_dist\<close>.
\<close>

theorem adjusted_max_path_weight_after_passes:
  assumes "set_node_distances source_node_ind sink_node_ind rr_node ss_distances max_path_weight
             FORWARD_TRAVERSAL nodes_visited = Inr (ss1, nv1)"
    and "set_node_distances sink_node_ind source_node_ind rr_node ss1 max_path_weight
             BACKWARD_TRAVERSAL nv1 = Inr (ss2, nv2)"
  shows "get_ss_distances_and_adjust_max_path_weight source_node_ind sink_node_ind rr_node
           ss_distances max_path_weight nodes_visited
         = (if source_distance (ss2 ! sink_node_ind) \<noteq> sink_distance (ss2 ! source_node_ind)
            then Inl (Distance_Mismatch (sink_distance (ss2 ! source_node_ind))
                        (source_distance (ss2 ! sink_node_ind)))
            else Inr (ss2, nv2,
                      min max_path_weight
                        \<lceil>of_int (source_distance (ss2 ! sink_node_ind)) * (13 / 10 :: real)\<rceil>,
                      source_distance (ss2 ! sink_node_ind)))"
  using assms
  by (simp add: get_ss_distances_and_adjust_max_path_weight_def Let_def
      PATH_FLEXIBILITY_FACTOR_def min.commute)

theorem adjusted_max_path_weight_after_passes_witness:
  "set_node_distances 0 4 line_rr (fresh_ss 5) 3 FORWARD_TRAVERSAL [] = Inr (line_ss_forward, [0, 1, 2, 3, 4])
   \<and> set_node_distances 4 0 line_rr line_ss_forward 3 BACKWARD_TRAVERSAL [0, 1, 2, 3, 4]
        = Inr (line_ss_both, [0, 1, 2, 3, 4, 4, 3, 2, 1, 0])
   \<and> get_ss_distances_and_adjust_max_path_weight 0 4 line_rr (fresh_ss 5) 3 []
        = Inr (line_ss_both, [0, 1, 2, 3, 4, 4, 3, 2, 1, 0], 2, 1)"
proof -
  have d: "source_distance (line_ss_both ! 4) = 1" "sink_distance (line_ss_both ! 0) = 1"
    by (simp_all add: line_ss_both_def SS_fresh_def)
  have c: "\<lceil>of_int 1 * (13 / 10 :: real)\<rceil> = 2" by simp
  show ?thesis
    using adjusted_max_path_weight_after_passes [OF line_forward_pass line_backward_pass]
      line_forward_pass line_backward_pass
    by (simp add: d c)
qed

subsection \<open>The hops pass\<close>

text \<open>
  \<^verbatim>\<open>set_node_hops\<close>: a breadth-first traversal over the legal nodes.  \<open>hop_child\<close> is the body
  of the loop over the edge list of the node taken from the queue, \<open>hop_children\<close> that loop,
  \<open>set_node_hops_loop\<close> the \<^verbatim>\<open>while (!Q.empty())\<close> loop; the queue is a list, its front the
  head.
\<close>

definition visited_hops_dir :: "e_traversal_dir \<Rightarrow> SS_Distances \<Rightarrow> bool" where
  "visited_hops_dir dir s = (case dir of FORWARD_TRAVERSAL \<Rightarrow> visited_from_source_hops s
                                       | BACKWARD_TRAVERSAL \<Rightarrow> visited_from_sink_hops s)"

definition hop_child ::
  "int \<Rightarrow> int \<Rightarrow> e_traversal_dir \<Rightarrow> t_rr_node \<Rightarrow> nat \<Rightarrow> t_ss_distances \<times> nat list
   \<Rightarrow> wotan_error + (t_ss_distances \<times> nat list)" where
  "hop_child node_hops max_path_weight traversal_dir rr_node child_ind st =
     (case st of (ss_distances, Q) \<Rightarrow>
      if child_ind \<ge> length ss_distances \<or> child_ind \<ge> length rr_node then Inl Index_Out_Of_Range
      else
        (let child_weight = weight (rr_node ! child_ind)
         in if \<not> is_legal (ss_distances ! child_ind) child_weight max_path_weight
            then Inr (ss_distances, Q)
            else if visited_hops_dir traversal_dir (ss_distances ! child_ind)
            then Inr (ss_distances, Q)
            else Inr (ss_distances[child_ind :=
                        (case traversal_dir of
                           FORWARD_TRAVERSAL \<Rightarrow> (ss_distances ! child_ind)
                             \<lparr>visited_from_source_hops := True, source_hops := node_hops + 1\<rparr>
                         | BACKWARD_TRAVERSAL \<Rightarrow> (ss_distances ! child_ind)
                             \<lparr>sink_hops := node_hops + 1, visited_from_sink_hops := True\<rparr>)],
                      Q @ [child_ind])))"

fun hop_children ::
  "int \<Rightarrow> int \<Rightarrow> e_traversal_dir \<Rightarrow> t_rr_node \<Rightarrow> nat list \<Rightarrow> t_ss_distances \<times> nat list
   \<Rightarrow> wotan_error + (t_ss_distances \<times> nat list)" where
  "hop_children node_hops max_path_weight traversal_dir rr_node [] st = Inr st"
| "hop_children node_hops max_path_weight traversal_dir rr_node (child_ind # rest) st =
     (case hop_child node_hops max_path_weight traversal_dir rr_node child_ind st of
        Inl e \<Rightarrow> Inl e
      | Inr st' \<Rightarrow> hop_children node_hops max_path_weight traversal_dir rr_node rest st')"

definition hops_measure :: "e_traversal_dir \<Rightarrow> t_ss_distances \<Rightarrow> nat list \<Rightarrow> nat" where
  "hops_measure dir ss Q = 2 * length (filter (\<lambda>s. \<not> visited_hops_dir dir s) ss) + length Q"

lemma hop_child_measure:
  assumes "hop_child h W dir rr c (ss, Q) = Inr (ss', Q')"
  shows "hops_measure dir ss' Q' \<le> hops_measure dir ss Q"
proof (cases "c < length ss \<and> c < length rr \<and> is_legal (ss ! c) (weight (rr ! c)) W
              \<and> \<not> visited_hops_dir dir (ss ! c)")
  case False
  with assms show ?thesis
    by (auto simp: hop_child_def Let_def split: if_splits)
next
  case True
  then have c: "c < length ss" and nv: "\<not> visited_hops_dir dir (ss ! c)" by auto
  let ?v = "case dir of
              FORWARD_TRAVERSAL \<Rightarrow> (ss ! c)\<lparr>visited_from_source_hops := True, source_hops := h + 1\<rparr>
            | BACKWARD_TRAVERSAL \<Rightarrow> (ss ! c)\<lparr>sink_hops := h + 1, visited_from_sink_hops := True\<rparr>"
  have m: "\<not> (\<not> visited_hops_dir dir ?v)"
    by (cases dir) (simp_all add: visited_hops_dir_def)
  from assms True have r: "ss' = ss[c := ?v]" "Q' = Q @ [c]"
    by (auto simp: hop_child_def Let_def split: if_splits)
  from filter_length_update [OF c, of "\<lambda>s. \<not> visited_hops_dir dir s" ?v] nv m
  have "Suc (length (filter (\<lambda>s. \<not> visited_hops_dir dir s) (ss[c := ?v])))
          = length (filter (\<lambda>s. \<not> visited_hops_dir dir s) ss)"
    by simp
  with r show ?thesis by (simp add: hops_measure_def)
qed

lemma hop_children_measure:
  "hop_children h W dir rr cs (ss, Q) = Inr (ss', Q')
   \<Longrightarrow> hops_measure dir ss' Q' \<le> hops_measure dir ss Q"
proof (induction cs arbitrary: ss Q)
  case Nil
  then show ?case by simp
next
  case (Cons c cs)
  from Cons.prems obtain ss1 Q1 where
    s1: "hop_child h W dir rr c (ss, Q) = Inr (ss1, Q1)" and
    s2: "hop_children h W dir rr cs (ss1, Q1) = Inr (ss', Q')"
    by (auto split: sum.splits)
  from hop_child_measure [OF s1] Cons.IH [OF s2] show ?case by simp
qed

lemma mark_hops_measure:
  "length (filter (\<lambda>s. \<not> visited_hops_dir dir s)
      (ss[n := (case dir of FORWARD_TRAVERSAL \<Rightarrow> (ss ! n)\<lparr>visited_from_source_hops := True\<rparr>
                          | BACKWARD_TRAVERSAL \<Rightarrow> (ss ! n)\<lparr>visited_from_sink_hops := True\<rparr>)]))
   \<le> length (filter (\<lambda>s. \<not> visited_hops_dir dir s) ss)"
proof (cases "n < length ss")
  case True
  let ?v = "case dir of FORWARD_TRAVERSAL \<Rightarrow> (ss ! n)\<lparr>visited_from_source_hops := True\<rparr>
                      | BACKWARD_TRAVERSAL \<Rightarrow> (ss ! n)\<lparr>visited_from_sink_hops := True\<rparr>"
  have m: "\<not> (\<not> visited_hops_dir dir ?v)"
    by (cases dir) (simp_all add: visited_hops_dir_def)
  from filter_length_update [OF True, of "\<lambda>s. \<not> visited_hops_dir dir s" ?v] m
  show ?thesis by (simp split: if_splits)
next
  case False
  then have "length ss \<le> n" by simp
  then show ?thesis by (simp only: list_update_beyond order_refl)
qed

function set_node_hops_loop ::
  "t_rr_node \<Rightarrow> int \<Rightarrow> e_traversal_dir \<Rightarrow> nat list \<Rightarrow> t_ss_distances
   \<Rightarrow> wotan_error + t_ss_distances" where
  "set_node_hops_loop rr_node max_path_weight traversal_dir Q ss_distances =
     (case Q of
        [] \<Rightarrow> Inr ss_distances
      | node_ind # rest \<Rightarrow>
          if node_ind \<ge> length rr_node \<or> node_ind \<ge> length ss_distances then Inl Index_Out_Of_Range
          else
            (let edge_list = (case traversal_dir of
                                FORWARD_TRAVERSAL \<Rightarrow> out_edges (rr_node ! node_ind)
                              | BACKWARD_TRAVERSAL \<Rightarrow> in_edges (rr_node ! node_ind));
                 ss_marked = ss_distances[node_ind :=
                   (case traversal_dir of
                      FORWARD_TRAVERSAL \<Rightarrow> (ss_distances ! node_ind)\<lparr>visited_from_source_hops := True\<rparr>
                    | BACKWARD_TRAVERSAL \<Rightarrow> (ss_distances ! node_ind)\<lparr>visited_from_sink_hops := True\<rparr>)];
                 node_hops = (case traversal_dir of
                                FORWARD_TRAVERSAL \<Rightarrow> source_hops (ss_marked ! node_ind)
                              | BACKWARD_TRAVERSAL \<Rightarrow> sink_hops (ss_marked ! node_ind))
             in case hop_children node_hops max_path_weight traversal_dir rr_node edge_list
                       (ss_marked, rest) of
                  Inl e \<Rightarrow> Inl e
                | Inr (ss_distances', Q') \<Rightarrow>
                    set_node_hops_loop rr_node max_path_weight traversal_dir Q' ss_distances'))"
  by pat_completeness auto
termination
proof (relation "measure (\<lambda>(rr, W, dir, Q, ss). hops_measure dir ss Q)", goal_cases)
  case 1
  show ?case by simp
next
  case (2 rr W dir Q ss n rest edges marked h res ss' Q')
  from 2 have "hop_children h W dir rr edges (marked, rest) = Inr (ss', Q')"
    by simp
  from hop_children_measure [OF this] have "hops_measure dir ss' Q' \<le> hops_measure dir marked rest" .
  moreover have "hops_measure dir marked rest < hops_measure dir ss Q"
    using 2 mark_hops_measure [of dir ss n] by (simp add: hops_measure_def)
  ultimately show ?case by simp
qed

definition set_node_hops ::
  "nat \<Rightarrow> nat \<Rightarrow> t_rr_node \<Rightarrow> t_ss_distances \<Rightarrow> int \<Rightarrow> e_traversal_dir
   \<Rightarrow> wotan_error + t_ss_distances" where
  "set_node_hops from_node_ind to_node_ind rr_node ss_distances max_path_weight traversal_dir =
     (if from_node_ind \<ge> length ss_distances then Inl Index_Out_Of_Range
      else
        (let ss_distances' = ss_distances[from_node_ind :=
               (case traversal_dir of
                  FORWARD_TRAVERSAL \<Rightarrow> (ss_distances ! from_node_ind)\<lparr>source_hops := 0\<rparr>
                | BACKWARD_TRAVERSAL \<Rightarrow> (ss_distances ! from_node_ind)\<lparr>sink_hops := 0\<rparr>)]
         in set_node_hops_loop rr_node max_path_weight traversal_dir [from_node_ind] ss_distances'))"

subsection \<open>Sequencing of fallible steps\<close>

text \<open>An exception ends the computation: the rest runs only on a normal result.\<close>

definition bind_err :: "'e + 'a \<Rightarrow> ('a \<Rightarrow> 'e + 'b) \<Rightarrow> 'e + 'b" where
  "bind_err m f = (case m of Inl e \<Rightarrow> Inl e | Inr x \<Rightarrow> f x)"

lemma bind_err_Inl [simp]: "bind_err (Inl e) f = Inl e"
  by (simp add: bind_err_def)

lemma bind_err_Inr [simp]: "bind_err (Inr x) f = f x"
  by (simp add: bind_err_def)

text \<open>A read of a vector at an \<^verbatim>\<open>int\<close> index.\<close>

definition vec_at :: "'a list \<Rightarrow> int \<Rightarrow> wotan_error + 'a" where
  "vec_at xs i = (if 0 \<le> i \<and> nat i < length xs then Inr (xs ! nat i) else Inl Index_Out_Of_Range)"

subsection \<open>Per-node topological state\<close>

text \<open>
  Modelled from the spec: the classes \<^verbatim>\<open>Node_Buckets\<close> and \<^verbatim>\<open>Node_Topological_Info\<close> are
  declared in a header that is not among the sources.  The spec gives a node two parallel
  arrays \<open>source_buckets\<close> and \<open>sink_buckets\<close> indexed by path weight, a level and a
  "was visited" flag.
\<close>

record Node_Buckets =
  source_buckets :: "real list"
  sink_buckets :: "real list"

record Node_Topological_Info =
  buckets :: Node_Buckets
  level :: int
  was_visited :: bool

type_synonym t_node_topo_inf = "Node_Topological_Info list"

text \<open>
  Modelled from the spec: \<^verbatim>\<open>Node_Topological_Info::clear\<close> is not among the sources; the
  spec says that the cleanup zeroes the bucket entries that were used and that afterwards
  the buckets are zero.  Every entry is set to zero here, and the flag and the level are
  reset.
\<close>

definition Node_Topological_Info_clear :: "Node_Topological_Info \<Rightarrow> Node_Topological_Info" where
  "Node_Topological_Info_clear t =
     \<lparr>buckets = \<lparr>source_buckets = map (\<lambda>_. 0) (source_buckets (buckets t)),
                 sink_buckets = map (\<lambda>_. 0) (sink_buckets (buckets t))\<rparr>,
      level = UNDEFINED, was_visited = False\<rparr>"

text \<open>
  The assignments \<^verbatim>\<open>node_topo_inf[n].buckets.source_buckets[0] = v\<close>,
  \<^verbatim>\<open>node_topo_inf[n].buckets.sink_buckets[0] = v\<close> and \<^verbatim>\<open>node_topo_inf[n].set_level(l)\<close>.
\<close>

definition set_source_bucket0 :: "nat \<Rightarrow> real \<Rightarrow> t_node_topo_inf \<Rightarrow> wotan_error + t_node_topo_inf" where
  "set_source_bucket0 n v node_topo_inf =
     (if n \<ge> length node_topo_inf \<or> source_buckets (buckets (node_topo_inf ! n)) = []
      then Inl Index_Out_Of_Range
      else Inr (node_topo_inf[n := (node_topo_inf ! n)
                  \<lparr>buckets := (buckets (node_topo_inf ! n))
                     \<lparr>source_buckets := (source_buckets (buckets (node_topo_inf ! n)))[0 := v]\<rparr>\<rparr>]))"

definition set_sink_bucket0 :: "nat \<Rightarrow> real \<Rightarrow> t_node_topo_inf \<Rightarrow> wotan_error + t_node_topo_inf" where
  "set_sink_bucket0 n v node_topo_inf =
     (if n \<ge> length node_topo_inf \<or> sink_buckets (buckets (node_topo_inf ! n)) = []
      then Inl Index_Out_Of_Range
      else Inr (node_topo_inf[n := (node_topo_inf ! n)
                  \<lparr>buckets := (buckets (node_topo_inf ! n))
                     \<lparr>sink_buckets := (sink_buckets (buckets (node_topo_inf ! n)))[0 := v]\<rparr>\<rparr>]))"

definition set_level :: "nat \<Rightarrow> int \<Rightarrow> t_node_topo_inf \<Rightarrow> wotan_error + t_node_topo_inf" where
  "set_level n l node_topo_inf =
     (if n \<ge> length node_topo_inf then Inl Index_Out_Of_Range
      else Inr (node_topo_inf[n := (node_topo_inf ! n)\<lparr>level := l\<rparr>]))"

subsection \<open>Architecture, settings and options\<close>

text \<open>
  Modelled from the spec: the pin classes, block types, grid tiles, analysis settings and
  user options are declared in headers that are not among the sources; the records have
  the attributes that the spec lists for them and that the analysis reads.
\<close>

datatype e_pin_type = OPEN | DRIVER | RECEIVER

record Pin_Class =
  pin_type :: e_pin_type
  pinlist :: "int list"

record Physical_Type_Descriptor =
  class_inf :: "Pin_Class list"
  is_global_pin :: "bool list"

record Coordinate =
  coord_x :: int
  coord_y :: int

record Grid_Tile =
  type_index :: int
  width_offset :: int
  height_offset :: int

record User_Options =
  num_threads :: int
  max_connection_length :: int
  analyze_core :: bool
  use_routing_node_demand :: real

datatype e_topological_mode = ENUMERATE | PROBABILITY

datatype e_probability_mode =
  PROPAGATE | CUTLINE | CUTLINE_SIMPLE | CUTLINE_RECURSIVE | RELIABILITY_POLYNOMIAL

datatype e_enumerate_mode = BY_PATH_WEIGHT | BY_PATH_HOPS

subsection \<open>The collaborators that are not among the sources\<close>

text \<open>
  The topological traversal driver, the callbacks of the enumeration and of the probability
  models, the reliability polynomial and several getters are defined in files that are not
  among the sources.  They are parameters of the model: every theorem below holds for all
  values of them.

  A call of \<^verbatim>\<open>do_topological_traversal\<close> passes a structure of the model and three
  callbacks; \<open>callback_structs\<close> names the structure with the fields that the caller sets,
  and \<open>Callback_Result\<close> has the fields that the caller reads afterwards.  The driver works
  on the nodes, the distances and the topological state, which it may change.
\<close>

datatype callback_structs =
    Enumerate_Structs e_enumerate_mode
  | Cutline_Structs "Physical_Type_Descriptor option"
  | Cutline_Simple_Structs int "Physical_Type_Descriptor option"
  | Cutline_Recursive_Structs int nat nat "Physical_Type_Descriptor option"
  | Propagate_Structs "Physical_Type_Descriptor option"

record Callback_Result =
  prob_routable :: real
  num_routing_nodes_in_subgraph :: int

type_synonym traversal_state = "t_rr_node \<times> t_ss_distances \<times> t_node_topo_inf"

record Externals =
  do_topological_traversal ::
    "callback_structs \<Rightarrow> nat \<Rightarrow> nat \<Rightarrow> e_traversal_dir \<Rightarrow> int \<Rightarrow> User_Options
     \<Rightarrow> traversal_state \<Rightarrow> wotan_error + (traversal_state \<times> Callback_Result)"
  get_num_paths :: "Node_Buckets \<Rightarrow> int \<Rightarrow> int \<Rightarrow> int \<Rightarrow> real"
  analyze_reliability_polynomial :: "int \<Rightarrow> real list \<Rightarrow> int \<Rightarrow> real \<Rightarrow> real"
  get_max_path_weight :: "int \<Rightarrow> int"
  get_demand :: "User_Options \<Rightarrow> RR_Node \<Rightarrow> real"
  get_path_count_history :: "RR_Node \<Rightarrow> RR_Node \<Rightarrow> real"
  get_ipin_source_node_ind :: "RR_Node \<Rightarrow> nat"
  PROBS_EQUAL :: "real \<Rightarrow> real \<Rightarrow> bool"
  get_num_receivers :: "Physical_Type_Descriptor \<Rightarrow> int"
  get_num_drivers :: "Physical_Type_Descriptor \<Rightarrow> int"

subsection \<open>The state of one worker\<close>

text \<open>
  The mutable arguments of the per-connection functions: the nodes (for their demand), and
  the three arenas of the worker, \<^verbatim>\<open>ss_distances\<close>, \<^verbatim>\<open>node_topo_inf\<close> and \<^verbatim>\<open>nodes_visited\<close>.
\<close>

record Conn_State =
  st_rr_node :: t_rr_node
  st_ss_distances :: t_ss_distances
  st_node_topo_inf :: t_node_topo_inf
  st_nodes_visited :: t_nodes_visited

definition run_traversal ::
  "Externals \<Rightarrow> callback_structs \<Rightarrow> nat \<Rightarrow> nat \<Rightarrow> e_traversal_dir \<Rightarrow> int \<Rightarrow> User_Options
   \<Rightarrow> Conn_State \<Rightarrow> wotan_error + (Conn_State \<times> Callback_Result)" where
  "run_traversal ext structs from_node_ind to_node_ind traversal_dir max_path_weight user_opts st =
     bind_err (do_topological_traversal ext structs from_node_ind to_node_ind traversal_dir
                 max_path_weight user_opts
                 (st_rr_node st, st_ss_distances st, st_node_topo_inf st))
       (\<lambda>((rr, ss, topo), res).
           Inr (st\<lparr>st_rr_node := rr, st_ss_distances := ss, st_node_topo_inf := topo\<rparr>, res))"

subsection \<open>Path enumeration of one connection\<close>

text \<open>
  The value that \<^verbatim>\<open>enumerate_connection_paths\<close> writes into bucket 0 of the source before
  the forward traversal (\<^verbatim>\<open>scaled_starting_source_paths\<close>).
\<close>

definition scaled_starting_source_paths :: "real \<Rightarrow> real \<Rightarrow> real" where
  "scaled_starting_source_paths scaling_factor_for_enumerate num_enumerated =
     (if num_enumerated > 0 then
        (if scaling_factor_for_enumerate \<noteq> of_int UNDEFINED
         then scaling_factor_for_enumerate / num_enumerated
         else 1)
      else 0)"

text \<open>
  \<open>connection_distances\<close> is the head of \<^verbatim>\<open>enumerate_connection_paths\<close>: the two calls of
  \<^verbatim>\<open>set_node_distances\<close> and the call of \<^verbatim>\<open>get_ss_distances_and_adjust_max_path_weight\<close>
  (which runs the two passes once more).  It returns the state, the adjusted
  \<^verbatim>\<open>max_path_weight\<close> and \<^verbatim>\<open>min_dist\<close>.
\<close>

definition connection_distances ::
  "nat \<Rightarrow> nat \<Rightarrow> int \<Rightarrow> Conn_State \<Rightarrow> wotan_error + (Conn_State \<times> int \<times> int)" where
  "connection_distances source_node_ind sink_node_ind max_path_weight st =
     bind_err (set_node_distances source_node_ind sink_node_ind (st_rr_node st) (st_ss_distances st)
                 max_path_weight FORWARD_TRAVERSAL (st_nodes_visited st))
       (\<lambda>(ss1, nv1).
     bind_err (set_node_distances sink_node_ind source_node_ind (st_rr_node st) ss1
                 max_path_weight BACKWARD_TRAVERSAL nv1)
       (\<lambda>(ss2, nv2).
     bind_err (get_ss_distances_and_adjust_max_path_weight source_node_ind sink_node_ind
                 (st_rr_node st) ss2 max_path_weight nv2)
       (\<lambda>(ss3, nv3, adjusted_max_path_weight, min_dist).
          Inr (st\<lparr>st_ss_distances := ss3, st_nodes_visited := nv3\<rparr>,
               adjusted_max_path_weight, min_dist))))"

text \<open>
  \<open>enumerate_traversals\<close> is the body of the \<^verbatim>\<open>if (max_path_weight > 0 && min_dist > 0)\<close> of
  \<^verbatim>\<open>enumerate_connection_paths\<close>: the backward traversal from the sink, the number of paths
  at the source, and the forward traversal from the source.  \<open>forward_start_state\<close> is the
  part between the two traversals: it reads the weight of the source, sets bucket 0 of the
  source to 1, asks \<^verbatim>\<open>get_num_paths\<close> for the number of enumerated paths, and sets
  bucket 0 of the source to the scaled number of starting paths.
\<close>

definition forward_start_state ::
  "Externals \<Rightarrow> nat \<Rightarrow> int \<Rightarrow> real \<Rightarrow> Conn_State \<Rightarrow> wotan_error + Conn_State" where
  "forward_start_state ext source_node_ind max_path_weight scaling_factor_for_enumerate st =
     (if source_node_ind \<ge> length (st_rr_node st) then Inl Index_Out_Of_Range
      else
        (let source_node_weight = weight (st_rr_node st ! source_node_ind)
         in bind_err (set_source_bucket0 source_node_ind 1 (st_node_topo_inf st))
              (\<lambda>topo1.
                 let num_enumerated = get_num_paths ext (buckets (topo1 ! source_node_ind))
                                        source_node_weight 0 max_path_weight
                 in bind_err (set_source_bucket0 source_node_ind
                                (scaled_starting_source_paths scaling_factor_for_enumerate
                                   num_enumerated) topo1)
                      (\<lambda>topo2. Inr (st\<lparr>st_node_topo_inf := topo2\<rparr>)))))"

definition enumerate_traversals ::
  "Externals \<Rightarrow> nat \<Rightarrow> nat \<Rightarrow> int \<Rightarrow> User_Options \<Rightarrow> real \<Rightarrow> Conn_State
   \<Rightarrow> wotan_error + Conn_State" where
  "enumerate_traversals ext source_node_ind sink_node_ind max_path_weight user_opts
       scaling_factor_for_enumerate st =
     bind_err (set_sink_bucket0 sink_node_ind 1 (st_node_topo_inf st))
       (\<lambda>topo0.
     bind_err (run_traversal ext (Enumerate_Structs BY_PATH_WEIGHT) sink_node_ind source_node_ind
                 BACKWARD_TRAVERSAL max_path_weight user_opts (st\<lparr>st_node_topo_inf := topo0\<rparr>))
       (\<lambda>(st1, res1).
     bind_err (forward_start_state ext source_node_ind max_path_weight
                 scaling_factor_for_enumerate st1)
       (\<lambda>st2.
     bind_err (run_traversal ext (Enumerate_Structs BY_PATH_WEIGHT) source_node_ind sink_node_ind
                 FORWARD_TRAVERSAL max_path_weight user_opts st2)
       (\<lambda>(st3, res3). Inr st3))))"

definition enumerate_connection_paths ::
  "Externals \<Rightarrow> nat \<Rightarrow> nat \<Rightarrow> int \<Rightarrow> User_Options \<Rightarrow> real \<Rightarrow> Conn_State
   \<Rightarrow> wotan_error + Conn_State" where
  "enumerate_connection_paths ext source_node_ind sink_node_ind conn_length user_opts
       scaling_factor_for_enumerate st =
     bind_err (connection_distances source_node_ind sink_node_ind
                 (get_max_path_weight ext conn_length) st)
       (\<lambda>(st1, max_path_weight, min_dist).
          if max_path_weight > 0 \<and> min_dist > 0
          then enumerate_traversals ext source_node_ind sink_node_ind max_path_weight user_opts
                 scaling_factor_for_enumerate st1
          else Inr st1)"


subsection \<open>Probability of one connection\<close>

text \<open>
  \<^verbatim>\<open>estimate_connection_probability\<close>.  \<^verbatim>\<open>PROBABILITY_MODE\<close> is a macro of the file (its
  value is \<^verbatim>\<open>PROPAGATE\<close>); it is the parameter \<open>probability_mode\<close> here, so that the
  theorems cover the five models.  \<open>probability_model\<close> is the cascade over the mode inside
  the \<^verbatim>\<open>if (max_path_weight > 0 && min_dist > 0)\<close>; it returns the state and the value
  assigned to \<^verbatim>\<open>probability_sink_reachable\<close>.  A \<^verbatim>\<open>vector::assign\<close> with a negative count
  raises a length error.
\<close>

definition vector_assign_count :: "int \<Rightarrow> wotan_error + int" where
  "vector_assign_count n = (if n < 0 then Inl External_Failure else Inr n)"

definition set_node_hops_both ::
  "nat \<Rightarrow> nat \<Rightarrow> int \<Rightarrow> Conn_State \<Rightarrow> wotan_error + Conn_State" where
  "set_node_hops_both source_node_ind sink_node_ind max_path_weight st =
     bind_err (set_node_hops source_node_ind sink_node_ind (st_rr_node st) (st_ss_distances st)
                 max_path_weight FORWARD_TRAVERSAL)
       (\<lambda>ss1.
     bind_err (set_node_hops sink_node_ind source_node_ind (st_rr_node st) ss1
                 max_path_weight BACKWARD_TRAVERSAL)
       (\<lambda>ss2. Inr (st\<lparr>st_ss_distances := ss2\<rparr>)))"

definition probability_model ::
  "Externals \<Rightarrow> e_probability_mode \<Rightarrow> nat \<Rightarrow> nat \<Rightarrow> int \<Rightarrow> User_Options
   \<Rightarrow> Physical_Type_Descriptor option \<Rightarrow> Conn_State \<Rightarrow> wotan_error + (Conn_State \<times> real)" where
  "probability_model ext probability_mode source_node_ind sink_node_ind max_path_weight user_opts
       fill_type st =
     (case probability_mode of
        CUTLINE \<Rightarrow>
          bind_err (set_level source_node_ind 0 (st_node_topo_inf st))
            (\<lambda>topo.
          bind_err (run_traversal ext (Cutline_Structs fill_type) source_node_ind sink_node_ind
                      FORWARD_TRAVERSAL max_path_weight user_opts (st\<lparr>st_node_topo_inf := topo\<rparr>))
            (\<lambda>(st1, res). Inr (st1, prob_routable res)))
      | CUTLINE_SIMPLE \<Rightarrow>
          bind_err (set_node_hops_both source_node_ind sink_node_ind max_path_weight st)
            (\<lambda>st1.
          bind_err (vec_at (st_ss_distances st1) (int source_node_ind))
            (\<lambda>source_ss.
          bind_err (vector_assign_count (sink_hops source_ss - 1))
            (\<lambda>n.
          bind_err (run_traversal ext (Cutline_Simple_Structs n fill_type) source_node_ind
                      sink_node_ind FORWARD_TRAVERSAL max_path_weight user_opts st1)
            (\<lambda>(st2, res). Inr (st2, prob_routable res)))))
      | CUTLINE_RECURSIVE \<Rightarrow>
          bind_err (set_node_hops_both source_node_ind sink_node_ind max_path_weight st)
            (\<lambda>st1.
          bind_err (vec_at (st_ss_distances st1) (int sink_node_ind))
            (\<lambda>sink_ss.
          bind_err (vector_assign_count (source_hops sink_ss))
            (\<lambda>n.
          bind_err (run_traversal ext (Cutline_Recursive_Structs n source_node_ind sink_node_ind
                      fill_type) source_node_ind sink_node_ind FORWARD_TRAVERSAL
                      max_path_weight user_opts st1)
            (\<lambda>(st2, res). Inr (st2, prob_routable res)))))
      | PROPAGATE \<Rightarrow>
          bind_err (set_source_bucket0 source_node_ind 1 (st_node_topo_inf st))
            (\<lambda>topo.
          bind_err (run_traversal ext (Propagate_Structs fill_type) source_node_ind sink_node_ind
                      FORWARD_TRAVERSAL max_path_weight user_opts (st\<lparr>st_node_topo_inf := topo\<rparr>))
            (\<lambda>(st1, res). Inr (st1, prob_routable res)))
      | RELIABILITY_POLYNOMIAL \<Rightarrow>
          if use_routing_node_demand user_opts = of_int UNDEFINED
          then Inl Routing_Node_Demand_Not_Set
          else
          bind_err (set_node_hops_both source_node_ind sink_node_ind max_path_weight st)
            (\<lambda>st1.
          bind_err (set_source_bucket0 source_node_ind 1 (st_node_topo_inf st1))
            (\<lambda>topo.
          bind_err (run_traversal ext (Enumerate_Structs BY_PATH_HOPS) source_node_ind sink_node_ind
                      FORWARD_TRAVERSAL max_path_weight user_opts (st1\<lparr>st_node_topo_inf := topo\<rparr>))
            (\<lambda>(st2, res).
          bind_err (vec_at (st_ss_distances st2) (int sink_node_ind))
            (\<lambda>sink_ss.
          bind_err (vec_at (st_node_topo_inf st2) (int sink_node_ind))
            (\<lambda>sink_topo.
             Inr (st2, analyze_reliability_polynomial ext (source_hops sink_ss)
                         (source_buckets (buckets sink_topo))
                         (num_routing_nodes_in_subgraph res)
                         (1 - use_routing_node_demand user_opts))))))))"

definition estimate_connection_probability ::
  "Externals \<Rightarrow> e_probability_mode \<Rightarrow> nat \<Rightarrow> nat \<Rightarrow> int \<Rightarrow> User_Options
   \<Rightarrow> Physical_Type_Descriptor option \<Rightarrow> Conn_State \<Rightarrow> wotan_error + (Conn_State \<times> real)" where
  "estimate_connection_probability ext probability_mode source_node_ind sink_node_ind conn_length
       user_opts fill_type st =
     bind_err (get_ss_distances_and_adjust_max_path_weight source_node_ind sink_node_ind
                 (st_rr_node st) (st_ss_distances st) (get_max_path_weight ext conn_length)
                 (st_nodes_visited st))
       (\<lambda>(ss, nv, max_path_weight, min_dist).
          let st1 = st\<lparr>st_ss_distances := ss, st_nodes_visited := nv\<rparr>
          in if max_path_weight > 0 \<and> min_dist > 0
             then bind_err (probability_model ext probability_mode source_node_ind sink_node_ind
                              max_path_weight user_opts fill_type st1)
                    (\<lambda>(st2, probability_sink_reachable).
                       if probability_sink_reachable > 1
                       then Inl (Probability_Gt_1 probability_sink_reachable)
                       else if probability_sink_reachable < 0
                       then Inl (Probability_Lt_0 probability_sink_reachable)
                       else Inr (st2, probability_sink_reachable))
             else Inr (st1, 0))"

subsection \<open>Claim C5: the estimate lies in the unit interval\<close>

text \<open>
  Claim C5.  For every connection and every probability model, a probability that
  \<^verbatim>\<open>estimate_connection_probability\<close> returns lies between 0 and 1; and when the model of a
  connection with a positive adjusted path weight and a positive distance produces a value
  below 0 or above 1, the function fails with an invariant error and returns nothing.
\<close>

theorem estimate_in_unit_interval:
  "(\<forall>st' p. estimate_connection_probability ext probability_mode source_node_ind sink_node_ind
               conn_length user_opts fill_type st = Inr (st', p) \<longrightarrow> 0 \<le> p \<and> p \<le> 1)
   \<and> (\<forall>ss nv max_path_weight min_dist st2 q.
         get_ss_distances_and_adjust_max_path_weight source_node_ind sink_node_ind
           (st_rr_node st) (st_ss_distances st) (get_max_path_weight ext conn_length)
           (st_nodes_visited st) = Inr (ss, nv, max_path_weight, min_dist)
         \<and> max_path_weight > 0 \<and> min_dist > 0
         \<and> probability_model ext probability_mode source_node_ind sink_node_ind max_path_weight
             user_opts fill_type (st\<lparr>st_ss_distances := ss, st_nodes_visited := nv\<rparr>) = Inr (st2, q)
         \<and> (q < 0 \<or> 1 < q)
         \<longrightarrow> estimate_connection_probability ext probability_mode source_node_ind sink_node_ind
               conn_length user_opts fill_type st
             = Inl (if 1 < q then Probability_Gt_1 q else Probability_Lt_0 q))"
  by (auto simp: estimate_connection_probability_def Let_def bind_err_def
      split: sum.splits if_splits prod.splits)

definition fresh_topo :: "nat \<Rightarrow> nat \<Rightarrow> t_node_topo_inf" where
  "fresh_topo n b = replicate n \<lparr>buckets = \<lparr>source_buckets = replicate b 0, sink_buckets = replicate b 0\<rparr>,
                                 level = UNDEFINED, was_visited = False\<rparr>"

definition test_result :: "real \<Rightarrow> Callback_Result" where
  "test_result p = \<lparr>prob_routable = p, num_routing_nodes_in_subgraph = 0\<rparr>"

definition test_externals :: "real \<Rightarrow> int \<Rightarrow> Externals" where
  "test_externals p W =
     \<lparr>do_topological_traversal = (\<lambda>structs from_node to_node dir mw opts ts. Inr (ts, test_result p)),
      get_num_paths = (\<lambda>b w d mw. 2),
      analyze_reliability_polynomial = (\<lambda>h b n q. p),
      get_max_path_weight = (\<lambda>len. W),
      get_demand = (\<lambda>opts n. demand n),
      get_path_count_history = (\<lambda>n m. 0),
      get_ipin_source_node_ind = (\<lambda>n. 0),
      PROBS_EQUAL = (\<lambda>a b. a = b),
      get_num_receivers = (\<lambda>t. 1),
      get_num_drivers = (\<lambda>t. 1)\<rparr>"

definition test_opts :: User_Options where
  "test_opts = \<lparr>num_threads = 1, max_connection_length = 1, analyze_core = False,
                use_routing_node_demand = 1 / 4\<rparr>"

definition line_state :: Conn_State where
  "line_state = \<lparr>st_rr_node = line_rr, st_ss_distances = fresh_ss 5,
                 st_node_topo_inf = fresh_topo 5 4, st_nodes_visited = []\<rparr>"

text \<open>
  The scaling factor that \<^verbatim>\<open>analyze_connection\<close> computes for the enumeration:
  \<^verbatim>\<open>(float)sinks * probability * length_prob / (float)number_conns_at_length\<close>.
\<close>

definition scaling_factor_for_enumerate :: "int \<Rightarrow> real \<Rightarrow> real \<Rightarrow> int \<Rightarrow> real" where
  "scaling_factor_for_enumerate sinks probability length_prob number_conns_at_length =
     of_int sinks * probability * length_prob / of_int number_conns_at_length"

definition unreachable_ss :: t_ss_distances where
  "unreachable_ss =
     [SS_fresh\<lparr>source_distance := 0, visited_from_source := True\<rparr>,
      SS_fresh\<lparr>source_distance := 0, visited_from_source := True\<rparr>,
      SS_fresh, SS_fresh,
      SS_fresh\<lparr>sink_distance := 0, visited_from_sink := True\<rparr>]"



subsection \<open>Claim C10: connections that cannot be analysed\<close>

text \<open>
  Claim C10.  When the distance pass of a pair returns an adjusted maximum path weight
  \<open>\<le> 0\<close> or a source-sink distance \<open>\<le> 0\<close>, \<^verbatim>\<open>estimate_connection_probability\<close> returns
  the probability 0, without an error and whatever the probability model and the traversal
  driver are: the state it returns is the state after the distance pass.  In the same
  situation \<^verbatim>\<open>enumerate_connection_paths\<close> returns the state after its distance passes: no
  traversal has run, and the nodes (with their demands) and the buckets are unchanged.
\<close>

theorem unreachable_pair_is_skipped:
  assumes "max_path_weight \<le> 0 \<or> min_dist \<le> 0"
  shows "(get_ss_distances_and_adjust_max_path_weight source_node_ind sink_node_ind
            (st_rr_node st) (st_ss_distances st) (get_max_path_weight ext conn_length)
            (st_nodes_visited st) = Inr (ss, nv, max_path_weight, min_dist)
          \<longrightarrow> estimate_connection_probability ext probability_mode source_node_ind sink_node_ind
                conn_length user_opts fill_type st
              = Inr (st\<lparr>st_ss_distances := ss, st_nodes_visited := nv\<rparr>, 0))
       \<and> (connection_distances source_node_ind sink_node_ind (get_max_path_weight ext conn_length) st
            = Inr (st1, max_path_weight, min_dist)
          \<longrightarrow> enumerate_connection_paths ext source_node_ind sink_node_ind conn_length user_opts
                scaling_factor st = Inr st1
              \<and> st_rr_node st1 = st_rr_node st
              \<and> st_node_topo_inf st1 = st_node_topo_inf st)"
proof (intro conjI impI)
  assume "get_ss_distances_and_adjust_max_path_weight source_node_ind sink_node_ind
            (st_rr_node st) (st_ss_distances st) (get_max_path_weight ext conn_length)
            (st_nodes_visited st) = Inr (ss, nv, max_path_weight, min_dist)"
  with assms show "estimate_connection_probability ext probability_mode source_node_ind
      sink_node_ind conn_length user_opts fill_type st
      = Inr (st\<lparr>st_ss_distances := ss, st_nodes_visited := nv\<rparr>, 0)"
    by (auto simp: estimate_connection_probability_def Let_def)
next
  assume d: "connection_distances source_node_ind sink_node_ind (get_max_path_weight ext conn_length) st
            = Inr (st1, max_path_weight, min_dist)"
  with assms show "enumerate_connection_paths ext source_node_ind sink_node_ind conn_length
      user_opts scaling_factor st = Inr st1"
    by (auto simp: enumerate_connection_paths_def)
  from d show "st_rr_node st1 = st_rr_node st"
    by (auto simp: connection_distances_def bind_err_def split: sum.splits)
  from d show "st_node_topo_inf st1 = st_node_topo_inf st"
    by (auto simp: connection_distances_def bind_err_def split: sum.splits)
qed

theorem unreachable_pair_is_skipped_witness:
  "((- 1 :: int) \<le> 0 \<or> (- 1 :: int) \<le> 0)
   \<and> get_ss_distances_and_adjust_max_path_weight 0 4 (st_rr_node line_state)
        (st_ss_distances line_state) (get_max_path_weight (test_externals (1 / 2) 0) 1)
        (st_nodes_visited line_state) = Inr (unreachable_ss, [0, 1, 4], - 1, - 1)
   \<and> estimate_connection_probability (test_externals (1 / 2) 0) PROPAGATE 0 4 1 test_opts None
        line_state
      = Inr (line_state\<lparr>st_ss_distances := unreachable_ss, st_nodes_visited := [0, 1, 4]\<rparr>, 0)
   \<and> connection_distances 0 4 (get_max_path_weight (test_externals (1 / 2) 0) 1) line_state
      = Inr (line_state\<lparr>st_ss_distances := unreachable_ss, st_nodes_visited := [0, 1, 4, 0, 4]\<rparr>,
             - 1, - 1)
   \<and> enumerate_connection_paths (test_externals (1 / 2) 0) 0 4 1 test_opts 1 line_state
      = Inr (line_state\<lparr>st_ss_distances := unreachable_ss, st_nodes_visited := [0, 1, 4, 0, 4]\<rparr>)"
proof -
  have g: "(- 1 :: int) \<le> 0 \<or> (- 1 :: int) \<le> 0" by simp
  have a: "get_ss_distances_and_adjust_max_path_weight 0 4 (st_rr_node line_state)
        (st_ss_distances line_state) (get_max_path_weight (test_externals (1 / 2) 0) 1)
        (st_nodes_visited line_state) = Inr (unreachable_ss, [0, 1, 4], - 1, - 1)"
    by code_simp
  have b: "connection_distances 0 4 (get_max_path_weight (test_externals (1 / 2) 0) 1) line_state
      = Inr (line_state\<lparr>st_ss_distances := unreachable_ss, st_nodes_visited := [0, 1, 4, 0, 4]\<rparr>,
             - 1, - 1)"
    by code_simp
  from unreachable_pair_is_skipped [OF g, of 0 4 line_state "test_externals (1 / 2) 0" 1
      unreachable_ss "[0, 1, 4]" PROPAGATE test_opts None
      "line_state\<lparr>st_ss_distances := unreachable_ss, st_nodes_visited := [0, 1, 4, 0, 4]\<rparr>" 1]
    a b g
  show ?thesis by blast
qed

definition line_state_propagated :: Conn_State where
  "line_state_propagated =
     \<lparr>st_rr_node = line_rr, st_ss_distances = line_ss_both,
      st_node_topo_inf = (fresh_topo 5 4)
        [0 := \<lparr>buckets = \<lparr>source_buckets = [1, 0, 0, 0], sink_buckets = [0, 0, 0, 0]\<rparr>,
                level = UNDEFINED, was_visited = False\<rparr>],
      st_nodes_visited = [0, 1, 2, 3, 4, 4, 3, 2, 1, 0]\<rparr>"

theorem estimate_in_unit_interval_witness:
  "estimate_connection_probability (test_externals (1 / 2) 3) PROPAGATE 0 4 1 test_opts None line_state
     = Inr (line_state_propagated, 1 / 2)
   \<and> (0 :: real) \<le> 1 / 2 \<and> (1 / 2 :: real) \<le> 1
   \<and> get_ss_distances_and_adjust_max_path_weight 0 4 (st_rr_node line_state)
         (st_ss_distances line_state) (get_max_path_weight (test_externals 2 3) 1)
         (st_nodes_visited line_state) = Inr (line_ss_both, [0, 1, 2, 3, 4, 4, 3, 2, 1, 0], 2, 1)
   \<and> (2 :: int) > 0 \<and> (1 :: int) > 0
   \<and> probability_model (test_externals 2 3) PROPAGATE 0 4 2 test_opts None
         (line_state\<lparr>st_ss_distances := line_ss_both,
                      st_nodes_visited := [0, 1, 2, 3, 4, 4, 3, 2, 1, 0]\<rparr>)
       = Inr (line_state_propagated, 2)
   \<and> ((2 :: real) < 0 \<or> (1 :: real) < 2)
   \<and> estimate_connection_probability (test_externals 2 3) PROPAGATE 0 4 1 test_opts None line_state
       = Inl (Probability_Gt_1 2)"
proof -
  have a: "estimate_connection_probability (test_externals (1 / 2) 3) PROPAGATE 0 4 1 test_opts
             None line_state = Inr (line_state_propagated, 1 / 2)"
    by code_simp
  have b: "get_ss_distances_and_adjust_max_path_weight 0 4 (st_rr_node line_state)
         (st_ss_distances line_state) (get_max_path_weight (test_externals 2 3) 1)
         (st_nodes_visited line_state) = Inr (line_ss_both, [0, 1, 2, 3, 4, 4, 3, 2, 1, 0], 2, 1)"
    by code_simp
  have c: "probability_model (test_externals 2 3) PROPAGATE 0 4 2 test_opts None
         (line_state\<lparr>st_ss_distances := line_ss_both,
                      st_nodes_visited := [0, 1, 2, 3, 4, 4, 3, 2, 1, 0]\<rparr>)
       = Inr (line_state_propagated, 2)"
    by code_simp
  have n: "(2 :: int) > 0" "(1 :: int) > 0" "(2 :: real) < 0 \<or> (1 :: real) < 2" by simp_all
  from estimate_in_unit_interval [of "test_externals (1 / 2) 3" PROPAGATE 0 4 1 test_opts None
      line_state] a
  have r1: "(0 :: real) \<le> 1 / 2 \<and> (1 / 2 :: real) \<le> 1" by blast
  from estimate_in_unit_interval [of "test_externals 2 3" PROPAGATE 0 4 1 test_opts None
      line_state] b c n
  have r2: "estimate_connection_probability (test_externals 2 3) PROPAGATE 0 4 1 test_opts None
      line_state = Inl (if (1::real) < 2 then Probability_Gt_1 2 else Probability_Lt_0 2)"
    by blast
  from a b c n r1 r2 show ?thesis by simp
qed

subsection \<open>Claim C7: the starting value of the forward enumeration\<close>





subsection \<open>Demand of a node without the share of the connection under analysis\<close>

text \<open>
  Modelled from the spec: \<^verbatim>\<open>Pin_Class::get_num_pins\<close> is not among the sources; the spec
  gives a pin class an ordered list of pin indices, and the number of pins of the class is
  the length of that list.
\<close>

definition get_num_pins :: "Pin_Class \<Rightarrow> int" where
  "get_num_pins c = int (length (pinlist c))"

text \<open>
  \<^verbatim>\<open>get_node_demand_adjusted_for_path_history\<close>.  The pointer \<^verbatim>\<open>fill_type\<close> is an option
  (\<open>None\<close> for \<^verbatim>\<open>NULL\<close>).  The C++ quotient by a pin count of zero is an infinity or
  NaN, the HOL quotient is 0: the theorem about this function assumes positive pin counts.
\<close>

definition get_node_demand_adjusted_for_path_history ::
  "Externals \<Rightarrow> nat \<Rightarrow> t_rr_node \<Rightarrow> nat \<Rightarrow> nat \<Rightarrow> Physical_Type_Descriptor option
   \<Rightarrow> User_Options \<Rightarrow> wotan_error + real" where
  "get_node_demand_adjusted_for_path_history ext node_ind rr_node source_ind sink_ind fill_type
       user_opts =
     bind_err (vec_at rr_node (int node_ind))
       (\<lambda>node.
          let adjusted_node_demand = get_demand ext user_opts node
          in case fill_type of
               None \<Rightarrow> Inr adjusted_node_demand
             | Some ft \<Rightarrow>
                 bind_err (vec_at rr_node (int source_ind))
                   (\<lambda>source_node.
                 bind_err (vec_at (class_inf ft) (ptc_num source_node))
                   (\<lambda>source_class.
                 bind_err (vec_at rr_node (int sink_ind))
                   (\<lambda>sink_node.
                 bind_err (vec_at (class_inf ft) (ptc_num sink_node))
                   (\<lambda>sink_class.
                    let num_source_pins = get_num_pins source_class;
                        num_sink_pins = get_num_pins sink_class;
                        source_contribution =
                          get_path_count_history ext node source_node / of_int num_source_pins;
                        sink_contribution =
                          get_path_count_history ext node sink_node / of_int num_sink_pins;
                        modifier = max 0 (max source_contribution sink_contribution)
                    in if modifier > adjusted_node_demand + 0.00001
                       then Inl (Modifier_Exceeds_Demand modifier adjusted_node_demand)
                       else Inr (max 0 (adjusted_node_demand - modifier)))))))"

subsection \<open>Claim C6: the demand adjusted for the path history\<close>

text \<open>
  The formula of the claim as it was stated: the larger of the two contributions is
  subtracted from the demand, and the difference is floored at 0.
\<close>

definition claimed_adjusted_demand :: "real \<Rightarrow> real \<Rightarrow> real \<Rightarrow> real" where
  "claimed_adjusted_demand node_demand source_contribution sink_contribution =
     max 0 (node_demand - max source_contribution sink_contribution)"

text \<open>
  Claim C6, as amended.  For a node whose demand is read with a fill type, with the pin
  classes of the source and of the sink non-empty: let each contribution be the path count
  of the history for the endpoint divided by the number of pins of the pin class of the
  endpoint, and let the subtracted quantity be the larger of the two contributions,
  floored at 0 (a history that gives no positive count leaves the demand unmodified).  If
  the subtracted quantity exceeds the demand of the node by more than \<open>\<epsilon> = 0.00001\<close>, the
  function fails; otherwise it returns
  \<open>max 0 (demand - max 0 (max source_contribution sink_contribution))\<close>.
\<close>

theorem adjusted_demand_formula:
  assumes "node_ind < length rr_node" "source_ind < length rr_node" "sink_ind < length rr_node"
    and "vec_at (class_inf ft) (ptc_num (rr_node ! source_ind)) = Inr source_class"
    and "vec_at (class_inf ft) (ptc_num (rr_node ! sink_ind)) = Inr sink_class"
    and "pinlist source_class \<noteq> []" "pinlist sink_class \<noteq> []"
  shows "get_node_demand_adjusted_for_path_history ext node_ind rr_node source_ind sink_ind
           (Some ft) user_opts
         = (let node_demand = get_demand ext user_opts (rr_node ! node_ind);
                source_contribution =
                  get_path_count_history ext (rr_node ! node_ind) (rr_node ! source_ind)
                    / real (length (pinlist source_class));
                sink_contribution =
                  get_path_count_history ext (rr_node ! node_ind) (rr_node ! sink_ind)
                    / real (length (pinlist sink_class));
                subtracted = max 0 (max source_contribution sink_contribution)
            in if subtracted > node_demand + 0.00001
               then Inl (Modifier_Exceeds_Demand subtracted node_demand)
               else Inr (max 0 (node_demand - subtracted)))"
  using assms(1-5)
  by (simp add: get_node_demand_adjusted_for_path_history_def vec_at_def Let_def get_num_pins_def)

definition test_fill_type :: Physical_Type_Descriptor where
  "test_fill_type =
     \<lparr>class_inf = [\<lparr>pin_type = DRIVER, pinlist = [0]\<rparr>, \<lparr>pin_type = RECEIVER, pinlist = [1, 2]\<rparr>],
      is_global_pin = [False, False, False]\<rparr>"

definition history_externals :: Externals where
  "history_externals =
     (test_externals (1 / 2) 3)\<lparr>get_demand := (\<lambda>opts n. 3 / 4),
                                get_path_count_history := (\<lambda>n m. 1 / 4)\<rparr>"

text \<open>A history whose getter gives the negative count \<open>-1\<close> for every pair of nodes.\<close>

definition no_history_externals :: Externals where
  "no_history_externals =
     (test_externals (1 / 2) 3)\<lparr>get_demand := (\<lambda>opts n. 3 / 4),
                                get_path_count_history := (\<lambda>n m. - 1)\<rparr>"

theorem adjusted_demand_formula_witness:
  "(2 :: nat) < length line_rr \<and> (0 :: nat) < length line_rr \<and> (4 :: nat) < length line_rr
   \<and> vec_at (class_inf test_fill_type) (ptc_num (line_rr ! 0))
        = Inr \<lparr>pin_type = DRIVER, pinlist = [0]\<rparr>
   \<and> vec_at (class_inf test_fill_type) (ptc_num (line_rr ! 4))
        = Inr \<lparr>pin_type = RECEIVER, pinlist = [1, 2]\<rparr>
   \<and> pinlist \<lparr>pin_type = DRIVER, pinlist = [0]\<rparr> \<noteq> []
   \<and> pinlist \<lparr>pin_type = RECEIVER, pinlist = [1, 2]\<rparr> \<noteq> []
   \<and> get_node_demand_adjusted_for_path_history history_externals 2 line_rr 0 4
        (Some test_fill_type) test_opts = Inr (1 / 2)
   \<and> get_node_demand_adjusted_for_path_history no_history_externals 2 line_rr 0 4
        (Some test_fill_type) test_opts = Inr (3 / 4)"
proof -
  have a: "(2 :: nat) < length line_rr" "(0 :: nat) < length line_rr" "(4 :: nat) < length line_rr"
    by (simp_all add: line_rr_def)
  have b: "vec_at (class_inf test_fill_type) (ptc_num (line_rr ! 0))
             = Inr \<lparr>pin_type = DRIVER, pinlist = [0]\<rparr>"
    by (simp add: vec_at_def test_fill_type_def line_rr_def mk_node_def)
  have c: "vec_at (class_inf test_fill_type) (ptc_num (line_rr ! 4))
             = Inr \<lparr>pin_type = RECEIVER, pinlist = [1, 2]\<rparr>"
    by (simp add: vec_at_def test_fill_type_def line_rr_def mk_node_def)
  have d: "pinlist \<lparr>pin_type = DRIVER, pinlist = [0]\<rparr> \<noteq> []"
    "pinlist \<lparr>pin_type = RECEIVER, pinlist = [1, 2]\<rparr> \<noteq> []"
    by simp_all
  from adjusted_demand_formula [OF a b c d, of history_externals test_opts]
  have e: "get_node_demand_adjusted_for_path_history history_externals 2 line_rr 0 4
          (Some test_fill_type) test_opts = Inr (1 / 2)"
    by (simp add: history_externals_def Let_def)
  from adjusted_demand_formula [OF a b c d, of no_history_externals test_opts]
  have f: "get_node_demand_adjusted_for_path_history no_history_externals 2 line_rr 0 4
          (Some test_fill_type) test_opts = Inr (3 / 4)"
    by (simp add: no_history_externals_def Let_def)
  with a b c d e show ?thesis by simp
qed

text \<open>
  The claim as it was stated subtracts the larger contribution as it is.  For a node of
  demand 3/4 whose history gives \<open>-1\<close> for the source and for the sink, the contributions
  are \<open>-1\<close> and \<open>-1/2\<close> and the claimed value is \<open>max 0 (3/4 + 1/2) = 5/4\<close>; the code floors
  the subtracted quantity at 0 and returns the demand 3/4.
\<close>

theorem adjusted_demand_without_floor_counterexample:
  "get_node_demand_adjusted_for_path_history no_history_externals 2 line_rr 0 4
     (Some test_fill_type) test_opts = Inr (3 / 4)
   \<and> claimed_adjusted_demand (get_demand no_history_externals test_opts (line_rr ! 2))
        (get_path_count_history no_history_externals (line_rr ! 2) (line_rr ! 0) / 1)
        (get_path_count_history no_history_externals (line_rr ! 2) (line_rr ! 4) / 2)
      = 5 / 4
   \<and> get_node_demand_adjusted_for_path_history no_history_externals 2 line_rr 0 4
        (Some test_fill_type) test_opts
      \<noteq> Inr (claimed_adjusted_demand (get_demand no_history_externals test_opts (line_rr ! 2))
               (get_path_count_history no_history_externals (line_rr ! 2) (line_rr ! 0) / 1)
               (get_path_count_history no_history_externals (line_rr ! 2) (line_rr ! 4) / 2))"
proof -
  have a: "get_node_demand_adjusted_for_path_history no_history_externals 2 line_rr 0 4
     (Some test_fill_type) test_opts = Inr (3 / 4)"
    by code_simp
  have b: "claimed_adjusted_demand (get_demand no_history_externals test_opts (line_rr ! 2))
        (get_path_count_history no_history_externals (line_rr ! 2) (line_rr ! 0) / 1)
        (get_path_count_history no_history_externals (line_rr ! 2) (line_rr ! 4) / 2)
      = 5 / 4"
    by (simp add: claimed_adjusted_demand_def no_history_externals_def)
  from a b show ?thesis by simp
qed

subsection \<open>Cleaning the arenas after a connection\<close>

text \<open>
  \<^verbatim>\<open>clean_ss_distances\<close> and \<^verbatim>\<open>clean_node_topo_inf\<close> are loops over \<open>nodes_visited\<close>;
  \<^verbatim>\<open>clean_node_data_structs\<close> runs both and clears \<open>nodes_visited\<close>.  Its result is the
  triple of the new \<open>nodes_visited\<close>, \<open>ss_distances\<close> and \<open>node_topo_inf\<close>.
\<close>

fun clean_ss_distances :: "t_ss_distances \<Rightarrow> t_nodes_visited \<Rightarrow> wotan_error + t_ss_distances" where
  "clean_ss_distances ss_distances [] = Inr ss_distances"
| "clean_ss_distances ss_distances (node_ind # rest) =
     (if node_ind \<ge> length ss_distances then Inl Index_Out_Of_Range
      else if visited_from_source (ss_distances ! node_ind)
              \<or> visited_from_sink (ss_distances ! node_ind)
      then clean_ss_distances
             (ss_distances[node_ind := SS_Distances_clear (ss_distances ! node_ind)]) rest
      else clean_ss_distances ss_distances rest)"

fun clean_node_topo_inf ::
  "t_node_topo_inf \<Rightarrow> t_nodes_visited \<Rightarrow> int \<Rightarrow> wotan_error + t_node_topo_inf" where
  "clean_node_topo_inf node_topo_inf [] max_path_weight = Inr node_topo_inf"
| "clean_node_topo_inf node_topo_inf (node_ind # rest) max_path_weight =
     (if node_ind \<ge> length node_topo_inf then Inl Index_Out_Of_Range
      else if was_visited (node_topo_inf ! node_ind)
      then clean_node_topo_inf
             (node_topo_inf[node_ind := Node_Topological_Info_clear (node_topo_inf ! node_ind)])
             rest max_path_weight
      else clean_node_topo_inf node_topo_inf rest max_path_weight)"

definition clean_node_data_structs ::
  "t_nodes_visited \<Rightarrow> t_ss_distances \<Rightarrow> t_node_topo_inf \<Rightarrow> int
   \<Rightarrow> wotan_error + (t_nodes_visited \<times> t_ss_distances \<times> t_node_topo_inf)" where
  "clean_node_data_structs nodes_visited ss_distances node_topo_inf max_path_weight =
     bind_err (clean_ss_distances ss_distances nodes_visited)
       (\<lambda>ss_distances'.
     bind_err (clean_node_topo_inf node_topo_inf nodes_visited max_path_weight)
       (\<lambda>node_topo_inf'. Inr ([], ss_distances', node_topo_inf')))"

text \<open>The four flags of a node, and the buckets of a node being zero.\<close>

definition any_visited_flag :: "SS_Distances \<Rightarrow> bool" where
  "any_visited_flag s \<longleftrightarrow>
     visited_from_source s \<or> visited_from_sink s
     \<or> visited_from_source_hops s \<or> visited_from_sink_hops s"



definition hops_flags_with_distance_flags :: "t_nodes_visited \<Rightarrow> t_ss_distances \<Rightarrow> bool" where
  "hops_flags_with_distance_flags nodes_visited ss_distances \<longleftrightarrow>
     (\<forall>n \<in> set nodes_visited.
        any_visited_flag (ss_distances ! n)
        \<longrightarrow> visited_from_source (ss_distances ! n) \<or> visited_from_sink (ss_distances ! n))"





subsection \<open>Claim C8: the state of the visited nodes after the cleanup\<close>





subsection \<open>The distance and hops passes establish the state that the cleanup relies on\<close>

text \<open>
  The cleanup of the distances tests the two distance flags of a recorded node.  The passes
  of this file keep two facts: every node recorded in \<open>nodes_visited\<close> has a distance flag,
  and a hops flag is only set on a node that has a distance flag.
\<close>

definition dist_flag :: "SS_Distances \<Rightarrow> bool" where
  "dist_flag s \<longleftrightarrow> visited_from_source s \<or> visited_from_sink s"

definition hops_flag :: "SS_Distances \<Rightarrow> bool" where
  "hops_flag s \<longleftrightarrow> visited_from_source_hops s \<or> visited_from_sink_hops s"

definition recorded_have_distance_flag :: "t_nodes_visited \<Rightarrow> t_ss_distances \<Rightarrow> bool" where
  "recorded_have_distance_flag nv ss \<longleftrightarrow> (\<forall>n \<in> set nv. n < length ss \<and> dist_flag (ss ! n))"

definition hops_only_with_distance :: "t_ss_distances \<Rightarrow> bool" where
  "hops_only_with_distance ss \<longleftrightarrow> (\<forall>i < length ss. hops_flag (ss ! i) \<longrightarrow> dist_flag (ss ! i))"

definition flags_grow :: "t_ss_distances \<Rightarrow> t_ss_distances \<Rightarrow> bool" where
  "flags_grow ss ss' \<longleftrightarrow>
     length ss' = length ss
     \<and> (\<forall>i < length ss. (dist_flag (ss ! i) \<longrightarrow> dist_flag (ss' ! i))
                        \<and> (hops_flag (ss' ! i) \<longleftrightarrow> hops_flag (ss ! i)))"

definition queued_have_distance_flag :: "t_ss_distances \<Rightarrow> My_Bounded_Priority_Queue \<Rightarrow> bool" where
  "queued_have_distance_flag ss pq \<longleftrightarrow>
     (\<forall>e \<in> set (pq_entries pq). fst e < length ss \<and> dist_flag (ss ! fst e))"

lemma flags_grow_refl: "flags_grow ss ss"
  by (simp add: flags_grow_def)

lemma flags_grow_trans: "flags_grow a b \<Longrightarrow> flags_grow b c \<Longrightarrow> flags_grow a c"
  by (auto simp: flags_grow_def)

lemma set_pq_insert: "set (pq_insert e xs) = insert e (set xs)"
  by (induction xs) auto

lemma flags_grow_update:
  assumes "c < length ss" "dist_flag (ss ! c) \<longrightarrow> dist_flag v" "hops_flag v \<longleftrightarrow> hops_flag (ss ! c)"
  shows "flags_grow ss (ss[c := v])"
  using assms by (auto simp: flags_grow_def nth_list_update)

lemma queued_flags_grow:
  "queued_have_distance_flag ss pq \<Longrightarrow> flags_grow ss ss' \<Longrightarrow> queued_have_distance_flag ss' pq"
  by (auto simp: queued_have_distance_flag_def flags_grow_def)

lemma relax_child_flags:
  assumes "relax_child dx dy b W dir rr c (ss, pq) = Inr (ss', pq')"
  shows "flags_grow ss ss' \<and> (queued_have_distance_flag ss pq \<longrightarrow> queued_have_distance_flag ss' pq')"
proof (cases "c < length ss \<and> \<not> visited_dir dir (ss ! c)")
  case False
  with assms have "ss' = ss" "pq' = pq"
    by (auto simp: relax_child_def split: if_splits)
  then show ?thesis by (simp add: flags_grow_refl)
next
  case True
  then have c: "c < length ss" by simp
  let ?w = "b + weight (rr ! c)"
  show ?thesis
  proof (cases dir)
    case FORWARD_TRAVERSAL
    let ?v = "(ss ! c)\<lparr>source_distance := ?w, visited_from_source := True\<rparr>"
    have g: "flags_grow ss (ss[c := ?v])"
      by (rule flags_grow_update [OF c]) (simp_all add: dist_flag_def hops_flag_def)
    from assms True FORWARD_TRAVERSAL consider
      (pruned) "ss' = ss" "pq' = pq"
      | (pushed) "ss' = ss[c := ?v]"
          "pq' = pq\<lparr>pq_entries := pq_insert (c, ?w) (pq_entries pq)\<rparr>"
      by (auto simp: relax_child_def Let_def PQ_push_def visited_dir_def
          split: if_splits sum.splits bool.splits)
    then show ?thesis
    proof cases
      case pruned
      then show ?thesis by (simp add: flags_grow_refl)
    next
      case pushed
      have "queued_have_distance_flag ss pq \<longrightarrow> queued_have_distance_flag ss' pq'"
      proof
        assume "queued_have_distance_flag ss pq"
        from queued_flags_grow [OF this g] c pushed show "queued_have_distance_flag ss' pq'"
          by (auto simp: queued_have_distance_flag_def set_pq_insert dist_flag_def)
      qed
      with g pushed show ?thesis by simp
    qed
  next
    case BACKWARD_TRAVERSAL
    let ?m = "(ss ! c)\<lparr>sink_distance := ?w, visited_from_sink := True\<rparr>"
    let ?u = "?m\<lparr>sink_distance := UNDEFINED, visited_from_sink := False\<rparr>"
    have gm: "flags_grow ss (ss[c := ?m])"
      by (rule flags_grow_update [OF c]) (simp_all add: dist_flag_def hops_flag_def)
    from True BACKWARD_TRAVERSAL have nk: "\<not> visited_from_sink (ss ! c)"
      by (simp add: visited_dir_def)
    have gu: "flags_grow ss (ss[c := ?u])"
      by (rule flags_grow_update [OF c]) (simp_all add: dist_flag_def hops_flag_def nk)
    from assms True BACKWARD_TRAVERSAL consider
      (pruned) "ss' = ss[c := ?u]" "pq' = pq"
      | (pushed) "ss' = ss[c := ?m]"
          "pq' = pq\<lparr>pq_entries := pq_insert (c, ?w) (pq_entries pq)\<rparr>"
      by (auto simp: relax_child_def Let_def PQ_push_def visited_dir_def
          split: if_splits sum.splits bool.splits)
    then show ?thesis
    proof cases
      case pruned
      with gu queued_flags_grow [OF _ gu] show ?thesis by auto
    next
      case pushed
      have "queued_have_distance_flag ss pq \<longrightarrow> queued_have_distance_flag ss' pq'"
      proof
        assume "queued_have_distance_flag ss pq"
        from queued_flags_grow [OF this gm] c pushed show "queued_have_distance_flag ss' pq'"
          by (auto simp: queued_have_distance_flag_def set_pq_insert dist_flag_def)
      qed
      with gm pushed show ?thesis by simp
    qed
  qed
qed

lemma relax_children_flags:
  "relax_children dx dy b W dir rr cs (ss, pq) = Inr (ss', pq')
   \<Longrightarrow> flags_grow ss ss' \<and> (queued_have_distance_flag ss pq \<longrightarrow> queued_have_distance_flag ss' pq')"
proof (induction cs arbitrary: ss pq)
  case Nil
  then show ?case by (simp add: flags_grow_refl)
next
  case (Cons c cs)
  from Cons.prems obtain ss1 pq1 where
    s1: "relax_child dx dy b W dir rr c (ss, pq) = Inr (ss1, pq1)" and
    s2: "relax_children dx dy b W dir rr cs (ss1, pq1) = Inr (ss', pq')"
    by (auto split: sum.splits)
  from relax_child_flags [OF s1] Cons.IH [OF s2] show ?case
    by (auto intro: flags_grow_trans)
qed

lemma recorded_flags_grow:
  "recorded_have_distance_flag nv ss \<Longrightarrow> flags_grow ss ss' \<Longrightarrow> recorded_have_distance_flag nv ss'"
  by (auto simp: recorded_have_distance_flag_def flags_grow_def)

lemma set_node_distances_loop_flags:
  "set_node_distances_loop to rr W dir pq ss nv = Inr (ss', nv')
   \<Longrightarrow> queued_have_distance_flag ss pq \<Longrightarrow> recorded_have_distance_flag nv ss
   \<Longrightarrow> flags_grow ss ss' \<and> recorded_have_distance_flag nv' ss'"
proof (induction to rr W dir pq ss nv rule: set_node_distances_loop.induct)
  case (1 to rr W dir pq ss nv)
  show ?case
  proof (cases "pq_entries pq")
    case Nil
    with "1.prems" show ?thesis by (simp add: flags_grow_refl)
  next
    case (Cons e rest)
    obtain n w where e: "e = (n, w)" by (cases e)
    let ?edges = "case dir of FORWARD_TRAVERSAL \<Rightarrow> out_edges (rr ! n)
                            | BACKWARD_TRAVERSAL \<Rightarrow> in_edges (rr ! n)"
    from "1.prems"(1) Cons e have nr: "\<not> length rr \<le> n"
      by (auto split: if_splits)
    from "1.prems"(1) Cons e nr obtain ss1 pq1 where
      p: "put_children_on_pq_and_set_ss_distance ?edges w ss W dir rr to (pq\<lparr>pq_entries := rest\<rparr>)
            = Inr (ss1, pq1)" and
      l: "set_node_distances_loop to rr W dir pq1 ss1 (nv @ [n]) = Inr (ss', nv')"
      by (auto simp: Let_def split: sum.splits)
    from p have rc: "relax_children (xlow (rr ! to)) (ylow (rr ! to)) w W dir rr ?edges
                       (ss, pq\<lparr>pq_entries := rest\<rparr>) = Inr (ss1, pq1)"
      by (auto simp: put_children_on_pq_and_set_ss_distance_def Let_def split: if_splits)
    from "1.prems"(2) Cons have q0: "queued_have_distance_flag ss (pq\<lparr>pq_entries := rest\<rparr>)"
      by (simp add: queued_have_distance_flag_def)
    from relax_children_flags [OF rc] q0 have g: "flags_grow ss ss1"
      and q1: "queued_have_distance_flag ss1 pq1" by simp_all
    from "1.prems"(2) Cons e have "n < length ss \<and> dist_flag (ss ! n)"
      by (simp add: queued_have_distance_flag_def)
    with g have "n < length ss1 \<and> dist_flag (ss1 ! n)" by (auto simp: flags_grow_def)
    with recorded_flags_grow [OF "1.prems"(3) g]
    have r1: "recorded_have_distance_flag (nv @ [n]) ss1"
      by (simp add: recorded_have_distance_flag_def)
    from "1.IH" [OF Cons e [symmetric] nr refl p refl l q1 r1] g
    show ?thesis by (auto intro: flags_grow_trans)
  qed
qed


lemma set_node_distances_flags:
  assumes "set_node_distances from_ind to_ind rr ss W dir nv = Inr (ss', nv')"
    and "recorded_have_distance_flag nv ss"
  shows "flags_grow ss ss' \<and> recorded_have_distance_flag nv' ss'
         \<and> from_ind < length ss' \<and> dist_flag (ss' ! from_ind)"
proof -
  let ?v = "case dir of
              FORWARD_TRAVERSAL \<Rightarrow> (ss ! from_ind)\<lparr>source_distance := 0, visited_from_source := True\<rparr>
            | BACKWARD_TRAVERSAL \<Rightarrow> (ss ! from_ind)\<lparr>sink_distance := 0, visited_from_sink := True\<rparr>"
  let ?pq = "(PQ_new W)\<lparr>pq_entries := pq_insert (from_ind, 0) (pq_entries (PQ_new W))\<rparr>"
  from assms(1) have f: "from_ind < length ss"
    and l: "set_node_distances_loop to_ind rr W dir ?pq (ss[from_ind := ?v]) nv = Inr (ss', nv')"
    by (auto simp: set_node_distances_def PQ_push_def Let_def split: if_splits sum.splits)
  have vd: "visited_dir dir ?v" "dist_flag ?v" "hops_flag ?v \<longleftrightarrow> hops_flag (ss ! from_ind)"
    by (cases dir; simp add: visited_dir_def dist_flag_def hops_flag_def)+
  have g0: "flags_grow ss (ss[from_ind := ?v])"
    by (rule flags_grow_update [OF f]) (use vd in simp_all)
  have q0: "queued_have_distance_flag (ss[from_ind := ?v]) ?pq"
    using f vd by (simp add: queued_have_distance_flag_def PQ_new_def)
  from set_node_distances_loop_flags [OF l q0 recorded_flags_grow [OF assms(2) g0]]
  have g1: "flags_grow (ss[from_ind := ?v]) ss'" and r: "recorded_have_distance_flag nv' ss'"
    by simp_all
  from g1 f vd(2) have vis: "dist_flag (ss' ! from_ind)"
    by (auto simp: flags_grow_def)
  from g0 g1 have "flags_grow ss ss'" by (rule flags_grow_trans)
  moreover from g1 f have "from_ind < length ss'" by (simp add: flags_grow_def)
  ultimately show ?thesis using r vis by simp
qed

lemma hops_only_flags_grow:
  "hops_only_with_distance ss \<Longrightarrow> flags_grow ss ss' \<Longrightarrow> hops_only_with_distance ss'"
  by (auto simp: hops_only_with_distance_def flags_grow_def)

lemma get_ss_distances_flags:
  assumes "get_ss_distances_and_adjust_max_path_weight source_ind sink_ind rr ss W nv
             = Inr (ss', nv', W', d)"
    and "recorded_have_distance_flag nv ss" and "hops_only_with_distance ss"
  shows "recorded_have_distance_flag nv' ss' \<and> hops_only_with_distance ss'
         \<and> source_ind < length ss' \<and> dist_flag (ss' ! source_ind)
         \<and> sink_ind < length ss' \<and> dist_flag (ss' ! sink_ind)"
proof -
  from assms(1) obtain ss1 nv1 where
    f: "set_node_distances source_ind sink_ind rr ss W FORWARD_TRAVERSAL nv = Inr (ss1, nv1)" and
    b: "set_node_distances sink_ind source_ind rr ss1 W BACKWARD_TRAVERSAL nv1 = Inr (ss', nv')"
    by (auto simp: get_ss_distances_and_adjust_max_path_weight_def Let_def
        split: sum.splits if_splits)
  from set_node_distances_flags [OF f assms(2)]
  have g1: "flags_grow ss ss1" and r1: "recorded_have_distance_flag nv1 ss1"
    and s1: "source_ind < length ss1" "dist_flag (ss1 ! source_ind)"
    by simp_all
  from set_node_distances_flags [OF b r1]
  have g2: "flags_grow ss1 ss'" and r2: "recorded_have_distance_flag nv' ss'"
    and s2: "sink_ind < length ss'" "dist_flag (ss' ! sink_ind)"
    by simp_all
  from g2 s1 have "source_ind < length ss'" "dist_flag (ss' ! source_ind)"
    by (auto simp: flags_grow_def)
  moreover from hops_only_flags_grow [OF hops_only_flags_grow [OF assms(3) g1] g2]
  have "hops_only_with_distance ss'" .
  ultimately show ?thesis using r2 s2 by simp
qed

text \<open>The hops pass sets hops flags only, and only on nodes with a distance flag.\<close>

definition hops_step :: "t_ss_distances \<Rightarrow> t_ss_distances \<Rightarrow> bool" where
  "hops_step ss ss' \<longleftrightarrow>
     length ss' = length ss
     \<and> (\<forall>i < length ss. dist_flag (ss' ! i) = dist_flag (ss ! i)
                        \<and> (hops_flag (ss' ! i) \<longrightarrow> hops_flag (ss ! i) \<or> dist_flag (ss ! i)))"

lemma hops_step_refl: "hops_step ss ss"
  by (simp add: hops_step_def)

lemma hops_step_trans: "hops_step a b \<Longrightarrow> hops_step b c \<Longrightarrow> hops_step a c"
  by (auto simp: hops_step_def)

lemma hops_step_update:
  assumes "c < length ss" "dist_flag v = dist_flag (ss ! c)"
    "hops_flag v \<longrightarrow> hops_flag (ss ! c) \<or> dist_flag (ss ! c)"
  shows "hops_step ss (ss[c := v])"
  using assms by (auto simp: hops_step_def nth_list_update)

lemma hop_child_step:
  assumes "hop_child h W dir rr c (ss, Q) = Inr (ss', Q')"
  shows "hops_step ss ss'
         \<and> (\<forall>n \<in> set Q'. n \<in> set Q \<or> (n < length ss \<and> dist_flag (ss ! n)))"
proof (cases "c < length ss \<and> c < length rr \<and> is_legal (ss ! c) (weight (rr ! c)) W
              \<and> \<not> visited_hops_dir dir (ss ! c)")
  case False
  with assms have "ss' = ss" "Q' = Q"
    by (auto simp: hop_child_def Let_def split: if_splits)
  then show ?thesis by (simp add: hops_step_refl)
next
  case True
  then have c: "c < length ss" and d: "dist_flag (ss ! c)"
    by (auto simp: is_legal_def dist_flag_def)
  let ?v = "case dir of
              FORWARD_TRAVERSAL \<Rightarrow> (ss ! c)\<lparr>visited_from_source_hops := True, source_hops := h + 1\<rparr>
            | BACKWARD_TRAVERSAL \<Rightarrow> (ss ! c)\<lparr>sink_hops := h + 1, visited_from_sink_hops := True\<rparr>"
  from assms True have r: "ss' = ss[c := ?v]" "Q' = Q @ [c]"
    by (auto simp: hop_child_def Let_def split: if_splits)
  have "dist_flag ?v = dist_flag (ss ! c)"
    by (cases dir) (simp_all add: dist_flag_def)
  with d have "hops_step ss (ss[c := ?v])"
    by (intro hops_step_update [OF c]) simp_all
  with r c d show ?thesis by auto
qed

lemma hop_children_step:
  "hop_children h W dir rr cs (ss, Q) = Inr (ss', Q')
   \<Longrightarrow> hops_step ss ss'
       \<and> (\<forall>n \<in> set Q'. n \<in> set Q \<or> (n < length ss' \<and> dist_flag (ss' ! n)))"
proof (induction cs arbitrary: ss Q)
  case Nil
  then show ?case by (simp add: hops_step_refl)
next
  case (Cons c cs)
  from Cons.prems obtain ss1 Q1 where
    s1: "hop_child h W dir rr c (ss, Q) = Inr (ss1, Q1)" and
    s2: "hop_children h W dir rr cs (ss1, Q1) = Inr (ss', Q')"
    by (auto split: sum.splits)
  from hop_child_step [OF s1] have a: "hops_step ss ss1"
    and qa: "\<forall>n \<in> set Q1. n \<in> set Q \<or> (n < length ss \<and> dist_flag (ss ! n))" by simp_all
  from Cons.IH [OF s2] have b: "hops_step ss1 ss'"
    and qb: "\<forall>n \<in> set Q'. n \<in> set Q1 \<or> (n < length ss' \<and> dist_flag (ss' ! n))" by simp_all
  from a b have l: "length ss' = length ss"
    and dd: "\<forall>i < length ss. dist_flag (ss' ! i) = dist_flag (ss ! i)"
    by (auto simp: hops_step_def)
  have "\<forall>n \<in> set Q'. n \<in> set Q \<or> (n < length ss' \<and> dist_flag (ss' ! n))"
  proof
    fix n assume "n \<in> set Q'"
    with qb have "n \<in> set Q1 \<or> (n < length ss' \<and> dist_flag (ss' ! n))" by simp
    with qa l dd show "n \<in> set Q \<or> (n < length ss' \<and> dist_flag (ss' ! n))" by auto
  qed
  with hops_step_trans [OF a b] show ?case by simp
qed

lemma set_node_hops_loop_step:
  "set_node_hops_loop rr W dir Q ss = Inr ss'
   \<Longrightarrow> \<forall>n \<in> set Q. n < length ss \<longrightarrow> dist_flag (ss ! n)
   \<Longrightarrow> hops_step ss ss'"
proof (induction rr W dir Q ss rule: set_node_hops_loop.induct)
  case (1 rr W dir Q ss)
  show ?case
  proof (cases Q)
    case Nil
    with "1.prems" show ?thesis by (simp add: hops_step_refl)
  next
    case (Cons n rest)
    let ?edges = "case dir of FORWARD_TRAVERSAL \<Rightarrow> out_edges (rr ! n)
                            | BACKWARD_TRAVERSAL \<Rightarrow> in_edges (rr ! n)"
    let ?marked = "ss[n := (case dir of
                      FORWARD_TRAVERSAL \<Rightarrow> (ss ! n)\<lparr>visited_from_source_hops := True\<rparr>
                    | BACKWARD_TRAVERSAL \<Rightarrow> (ss ! n)\<lparr>visited_from_sink_hops := True\<rparr>)]"
    let ?h = "case dir of FORWARD_TRAVERSAL \<Rightarrow> source_hops (?marked ! n)
                        | BACKWARD_TRAVERSAL \<Rightarrow> sink_hops (?marked ! n)"
    from "1.prems"(1) Cons have nr: "\<not> (length rr \<le> n \<or> length ss \<le> n)"
      by (auto split: if_splits)
    then have n: "n < length ss" by simp
    from "1.prems"(1) Cons nr obtain ss1 Q1 where
      p: "hop_children ?h W dir rr ?edges (?marked, rest) = Inr (ss1, Q1)" and
      l: "set_node_hops_loop rr W dir Q1 ss1 = Inr ss'"
      by (auto simp: Let_def split: sum.splits)
    from "1.prems"(2) Cons n have dn: "dist_flag (ss ! n)" by simp
    have m: "hops_step ss ?marked"
      by (rule hops_step_update [OF n]) (cases dir; simp add: dist_flag_def dn [unfolded dist_flag_def])+
    from hop_children_step [OF p] have a: "hops_step ?marked ss1"
      and q: "\<forall>k \<in> set Q1. k \<in> set rest \<or> (k < length ss1 \<and> dist_flag (ss1 ! k))" by simp_all
    from hops_step_trans [OF m a] have b: "hops_step ss ss1" .
    have q1: "\<forall>k \<in> set Q1. k < length ss1 \<longrightarrow> dist_flag (ss1 ! k)"
    proof (intro ballI impI)
      fix k assume k: "k \<in> set Q1" "k < length ss1"
      with q have "k \<in> set rest \<or> dist_flag (ss1 ! k)" by auto
      with "1.prems"(2) Cons k b show "dist_flag (ss1 ! k)"
        by (auto simp: hops_step_def)
    qed
    from "1.IH" [OF Cons nr refl refl refl p refl l q1] b show ?thesis
      by (rule_tac hops_step_trans)
  qed
qed


lemma set_node_hops_step:
  assumes "set_node_hops from_ind to_ind rr ss W dir = Inr ss'" and "dist_flag (ss ! from_ind)"
  shows "hops_step ss ss'"
proof -
  let ?v = "case dir of FORWARD_TRAVERSAL \<Rightarrow> (ss ! from_ind)\<lparr>source_hops := 0\<rparr>
                      | BACKWARD_TRAVERSAL \<Rightarrow> (ss ! from_ind)\<lparr>sink_hops := 0\<rparr>"
  from assms(1) have f: "from_ind < length ss"
    and l: "set_node_hops_loop rr W dir [from_ind] (ss[from_ind := ?v]) = Inr ss'"
    by (auto simp: set_node_hops_def Let_def split: if_splits)
  have e: "dist_flag ?v = dist_flag (ss ! from_ind)" "hops_flag ?v = hops_flag (ss ! from_ind)"
    by (cases dir; simp add: dist_flag_def hops_flag_def)+
  have a: "hops_step ss (ss[from_ind := ?v])"
    by (rule hops_step_update [OF f]) (simp_all add: e)
  have "\<forall>n \<in> set [from_ind]. n < length (ss[from_ind := ?v]) \<longrightarrow> dist_flag (ss[from_ind := ?v] ! n)"
    using f e assms(2) by simp
  from set_node_hops_loop_step [OF l this] a show ?thesis
    by (rule_tac hops_step_trans)
qed

lemma hops_step_keeps:
  assumes "hops_step ss ss'"
  shows "(recorded_have_distance_flag nv ss \<longrightarrow> recorded_have_distance_flag nv ss')
       \<and> (hops_only_with_distance ss \<longrightarrow> hops_only_with_distance ss')"
  using assms
  by (auto simp: hops_step_def recorded_have_distance_flag_def hops_only_with_distance_def)

lemma set_node_hops_both_flags:
  assumes "set_node_hops_both source_ind sink_ind W st = Inr st'"
    and "recorded_have_distance_flag (st_nodes_visited st) (st_ss_distances st)"
    and "hops_only_with_distance (st_ss_distances st)"
    and "source_ind < length (st_ss_distances st)" "dist_flag (st_ss_distances st ! source_ind)"
    and "sink_ind < length (st_ss_distances st)" "dist_flag (st_ss_distances st ! sink_ind)"
  shows "recorded_have_distance_flag (st_nodes_visited st') (st_ss_distances st')
       \<and> hops_only_with_distance (st_ss_distances st')"
proof -
  from assms(1) obtain ss1 ss2 where
    f: "set_node_hops source_ind sink_ind (st_rr_node st) (st_ss_distances st) W FORWARD_TRAVERSAL
          = Inr ss1" and
    b: "set_node_hops sink_ind source_ind (st_rr_node st) ss1 W BACKWARD_TRAVERSAL = Inr ss2" and
    e: "st' = st\<lparr>st_ss_distances := ss2\<rparr>"
    by (auto simp: set_node_hops_both_def bind_err_def split: sum.splits)
  from set_node_hops_step [OF f assms(5)] have s1: "hops_step (st_ss_distances st) ss1" .
  with assms(6,7) have "dist_flag (ss1 ! sink_ind)" by (auto simp: hops_step_def)
  from set_node_hops_step [OF b this] have s2: "hops_step ss1 ss2" .
  from hops_step_keeps [OF hops_step_trans [OF s1 s2]] assms(2,3) e show ?thesis by simp
qed

lemma flags_imply_cleanup_precondition:
  "recorded_have_distance_flag nv ss \<Longrightarrow> hops_flags_with_distance_flags nv ss"
  by (auto simp: recorded_have_distance_flag_def hops_flags_with_distance_flags_def dist_flag_def)

text \<open>
  From a state in which every recorded node has a distance flag, the distance passes of a
  connection, followed or not by the two hops passes, lead to a state in which every
  recorded node has a distance flag: the precondition of the cleanup on the distances.
\<close>

lemma passes_keep_cleanup_precondition:
  assumes "get_ss_distances_and_adjust_max_path_weight source_ind sink_ind (st_rr_node st)
             (st_ss_distances st) W (st_nodes_visited st) = Inr (ss1, nv1, W', d)"
    and "recorded_have_distance_flag (st_nodes_visited st) (st_ss_distances st)"
    and "hops_only_with_distance (st_ss_distances st)"
  shows "hops_flags_with_distance_flags nv1 ss1
       \<and> (set_node_hops_both source_ind sink_ind W'
             (st\<lparr>st_ss_distances := ss1, st_nodes_visited := nv1\<rparr>) = Inr st'
            \<longrightarrow> hops_flags_with_distance_flags (st_nodes_visited st') (st_ss_distances st'))"
proof -
  from get_ss_distances_flags [OF assms]
  have r: "recorded_have_distance_flag nv1 ss1" and h: "hops_only_with_distance ss1"
    and s: "source_ind < length ss1" "dist_flag (ss1 ! source_ind)"
      "sink_ind < length ss1" "dist_flag (ss1 ! sink_ind)"
    by simp_all
  have "set_node_hops_both source_ind sink_ind W'
             (st\<lparr>st_ss_distances := ss1, st_nodes_visited := nv1\<rparr>) = Inr st'
        \<longrightarrow> hops_flags_with_distance_flags (st_nodes_visited st') (st_ss_distances st')"
  proof
    assume a: "set_node_hops_both source_ind sink_ind W'
             (st\<lparr>st_ss_distances := ss1, st_nodes_visited := nv1\<rparr>) = Inr st'"
    from set_node_hops_both_flags [OF a] r h s
    show "hops_flags_with_distance_flags (st_nodes_visited st') (st_ss_distances st')"
      by (simp add: flags_imply_cleanup_precondition)
  qed
  with flags_imply_cleanup_precondition [OF r] show ?thesis by simp
qed

subsection \<open>The fixed-size priority queue of the lowest probabilities\<close>

text \<open>
  Modelled from the spec: the class \<^verbatim>\<open>My_Fixed_Size_PQ\<close> is not among the sources.  The spec
  gives it a capacity \<open>k\<close> and a comparator: \<open>push(x)\<close> inserts while the size is below \<open>k\<close>,
  and otherwise compares \<open>x\<close> with the current extreme and retains the \<open>k\<close> elements that are
  smallest under the comparator.  This is the queue with the comparator \<^verbatim>\<open>less<float>\<close>
  (\<^verbatim>\<open>t_lowest_probs_pq\<close>): the entries are kept in ascending order, and a push inserts the
  value in its place and retains the first \<open>k\<close> entries.  \<^verbatim>\<open>set_properties\<close> sets the capacity.  The capacity of a queue made by the default
  constructor is not specified; it is 0 here, and no theorem depends on it.
\<close>

record My_Fixed_Size_PQ =
  fs_limit :: int
  fs_entries :: "real list"

definition My_Fixed_Size_PQ_default :: My_Fixed_Size_PQ where
  "My_Fixed_Size_PQ_default = \<lparr>fs_limit = 0, fs_entries = []\<rparr>"

definition set_properties :: "int \<Rightarrow> My_Fixed_Size_PQ \<Rightarrow> My_Fixed_Size_PQ" where
  "set_properties entries_limit pq = pq\<lparr>fs_limit := entries_limit\<rparr>"

definition fs_push :: "real \<Rightarrow> My_Fixed_Size_PQ \<Rightarrow> My_Fixed_Size_PQ" where
  "fs_push x pq = pq\<lparr>fs_entries := take (nat (fs_limit pq)) (insort x (fs_entries pq))\<rparr>"

subsection \<open>Creation of the per-length queues\<close>

text \<open>
  \<^verbatim>\<open>WORST_ROUTABILITY_PERCENTILE\<close> is the literal \<^verbatim>\<open>0.10\<close>.  The initialisation
  \<^verbatim>\<open>int entries_limit = conns_at_length[ilen] * WORST_ROUTABILITY_PERCENTILE\<close> converts the
  product from \<^verbatim>\<open>double\<close> to \<^verbatim>\<open>int\<close>, which discards the fractional part.  The product is
  exact here; the \<^verbatim>\<open>double\<close> nearest to 0.1 lies above 0.1 by less than \<open>10^-17\<close>, so for a
  32-bit count the \<^verbatim>\<open>double\<close> product has the same integer part.
\<close>

definition WORST_ROUTABILITY_PERCENTILE :: real where
  "WORST_ROUTABILITY_PERCENTILE = 10 / 100"

definition double_to_int :: "real \<Rightarrow> int" where
  "double_to_int r = (if r \<ge> 0 then \<lfloor>r\<rfloor> else \<lceil>r\<rceil>)"

text \<open>
  \<open>create_lowest_probs_pqs\<close> is the head of \<^verbatim>\<open>analyze_fpga_architecture\<close>: the vector of
  \<open>max_connection_length + 1\<close> default queues, and the loop over the lengths that sets the
  capacity of the queue of every length with a non-zero number of connections.  The vector
  \<open>conns_at_length\<close> is the output of \<^verbatim>\<open>get_conn_length_stats\<close>.
\<close>

fun set_entries_limits :: "int list \<Rightarrow> My_Fixed_Size_PQ list \<Rightarrow> My_Fixed_Size_PQ list" where
  "set_entries_limits (c # cs) (pq # pqs) =
     (if c = 0 then pq
      else set_properties (double_to_int (of_int c * WORST_ROUTABILITY_PERCENTILE)) pq)
     # set_entries_limits cs pqs"
| "set_entries_limits cs pqs = pqs"

definition create_lowest_probs_pqs ::
  "User_Options \<Rightarrow> int list \<Rightarrow> wotan_error + My_Fixed_Size_PQ list" where
  "create_lowest_probs_pqs user_opts conns_at_length =
     (if max_connection_length user_opts + 1 < 0 then Inl External_Failure
      else if int (length conns_at_length) < max_connection_length user_opts + 1
      then Inl Index_Out_Of_Range
      else Inr (set_entries_limits
                  (take (nat (max_connection_length user_opts + 1)) conns_at_length)
                  (replicate (nat (max_connection_length user_opts + 1)) My_Fixed_Size_PQ_default)))"

lemma length_set_entries_limits: "length (set_entries_limits cs pqs) = length pqs"
  by (induction cs pqs rule: set_entries_limits.induct) auto

lemma set_entries_limits_nth:
  "length cs = length pqs \<Longrightarrow> i < length pqs \<Longrightarrow>
   set_entries_limits cs pqs ! i =
     (if cs ! i = 0 then pqs ! i
      else set_properties (double_to_int (of_int (cs ! i) * WORST_ROUTABILITY_PERCENTILE)) (pqs ! i))"
proof (induction cs pqs arbitrary: i rule: set_entries_limits.induct)
  case (1 c cs pq pqs)
  then show ?case by (cases i) auto
qed auto

lemma double_to_int_tenth: "0 \<le> c \<Longrightarrow> double_to_int (of_int c * WORST_ROUTABILITY_PERCENTILE) = c div 10"
proof -
  assume "0 \<le> c"
  have "of_int c * (10 / 100 :: real) = of_int c / of_int 10" by simp
  moreover have "\<lfloor>(of_int c :: real) / of_int 10\<rfloor> = c div 10"
    by (rule floor_divide_of_int_eq)
  ultimately show ?thesis using \<open>0 \<le> c\<close>
    by (simp add: double_to_int_def WORST_ROUTABILITY_PERCENTILE_def)
qed

text \<open>Pushing a sequence of values keeps the smallest ones.\<close>

lemma take_insort_take:
  "sorted zs \<Longrightarrow> take k (insort x (take k zs)) = take k (insort (x::real) zs)"
proof (induction zs arbitrary: k)
  case Nil
  then show ?case by simp
next
  case (Cons z zs)
  show ?case
  proof (cases k)
    case 0
    then show ?thesis by simp
  next
    case (Suc k')
    with Cons show ?thesis
      by (cases k') (auto)
  qed
qed

lemma sort_mset_cong: "mset xs = mset ys \<Longrightarrow> sort xs = sort (ys :: real list)"
  by (rule properties_for_sort) simp_all

lemma fold_fs_push_entries:
  "fs_entries pq = take (nat (fs_limit pq)) (sort ys)
   \<Longrightarrow> fs_entries (fold fs_push xs pq) = take (nat (fs_limit pq)) (sort (ys @ xs))
       \<and> fs_limit (fold fs_push xs pq) = fs_limit pq"
proof (induction xs arbitrary: pq ys)
  case Nil
  then show ?case by simp
next
  case (Cons x xs)
  let ?pq = "fs_push x pq"
  have l: "fs_limit ?pq = fs_limit pq" by (simp add: fs_push_def)
  have "fs_entries ?pq = take (nat (fs_limit pq)) (insort x (take (nat (fs_limit pq)) (sort ys)))"
    using Cons.prems by (simp add: fs_push_def)
  also have "\<dots> = take (nat (fs_limit pq)) (insort x (sort ys))"
    by (rule take_insort_take) simp
  also have "\<dots> = take (nat (fs_limit pq)) (sort (x # ys))" by simp
  finally have e: "fs_entries ?pq = take (nat (fs_limit ?pq)) (sort (x # ys))" by (simp add: l)
  from Cons.IH [OF e] l
  have "fs_entries (fold fs_push xs ?pq) = take (nat (fs_limit pq)) (sort ((x # ys) @ xs))"
    and "fs_limit (fold fs_push xs ?pq) = fs_limit pq"
    by simp_all
  moreover have "sort ((x # ys) @ xs) = sort (ys @ x # xs)"
    by (rule sort_mset_cong) simp
  ultimately show ?case by simp
qed

subsection \<open>Claim C4: capacity and content of the per-length queues\<close>

text \<open>
  Claim C4, as amended.  For every connection length with a positive number \<open>n\<close> of
  connections, the queue of the lowest probabilities of that length is created with the
  capacity \<open>k = \<lfloor>n * 0.10\<rfloor>\<close> (the integer part of the product, \<open>n div 10\<close>), and after any
  sequence of pushes it holds the \<open>k\<close> smallest of the values pushed (all of them when
  there are fewer than \<open>k\<close>).
\<close>

theorem lowest_probs_pq_capacity_and_content:
  assumes "create_lowest_probs_pqs user_opts conns_at_length = Inr pqs"
    and "ilen < length pqs"
    and "0 < conns_at_length ! ilen"
  shows "fs_limit (pqs ! ilen) = \<lfloor>of_int (conns_at_length ! ilen) * (0.10 :: real)\<rfloor>
       \<and> fs_limit (pqs ! ilen) = conns_at_length ! ilen div 10
       \<and> fs_entries (fold fs_push xs (pqs ! ilen))
           = take (nat (conns_at_length ! ilen div 10)) (sort xs)"
proof -
  let ?n = "nat (max_connection_length user_opts + 1)"
  from assms(1) have
    p: "pqs = set_entries_limits (take ?n conns_at_length) (replicate ?n My_Fixed_Size_PQ_default)"
    and len: "int (length conns_at_length) \<ge> max_connection_length user_opts + 1"
    by (auto simp: create_lowest_probs_pqs_def split: if_splits)
  have l1: "length (take ?n conns_at_length) = length (replicate ?n My_Fixed_Size_PQ_default)"
    using len by simp
  have lq: "length pqs = ?n"
    unfolding p by (simp add: length_set_entries_limits)
  with assms(2) have i: "ilen < ?n" by simp
  with len have ic: "ilen < length conns_at_length" by linarith
  from set_entries_limits_nth [OF l1, of ilen] i ic assms(3) p
  have q: "pqs ! ilen = set_properties
             (double_to_int (of_int (conns_at_length ! ilen) * WORST_ROUTABILITY_PERCENTILE))
             My_Fixed_Size_PQ_default"
    by simp
  from assms(3) have dt: "double_to_int (of_int (conns_at_length ! ilen) * WORST_ROUTABILITY_PERCENTILE)
                           = conns_at_length ! ilen div 10"
    by (intro double_to_int_tenth) simp
  have lim: "fs_limit (pqs ! ilen) = conns_at_length ! ilen div 10"
    by (simp add: q dt set_properties_def)
  have fl: "\<lfloor>of_int (conns_at_length ! ilen) * (0.10 :: real)\<rfloor> = conns_at_length ! ilen div 10"
  proof -
    have "of_int (conns_at_length ! ilen) * (0.10 :: real)
            = of_int (conns_at_length ! ilen) / of_int 10" by simp
    then show ?thesis by (simp only: floor_divide_of_int_eq)
  qed
  have e: "fs_entries (pqs ! ilen) = take (nat (fs_limit (pqs ! ilen))) (sort [])"
    by (simp add: q set_properties_def My_Fixed_Size_PQ_default_def)
  from fold_fs_push_entries [OF e, of xs] lim fl show ?thesis by simp
qed

definition tenth_opts :: User_Options where
  "tenth_opts = \<lparr>num_threads = 1, max_connection_length = 1, analyze_core = True,
                 use_routing_node_demand = 1 / 4\<rparr>"

theorem lowest_probs_pq_capacity_and_content_witness:
  "create_lowest_probs_pqs tenth_opts [0, 25]
     = Inr [My_Fixed_Size_PQ_default, \<lparr>fs_limit = 2, fs_entries = []\<rparr>]
   \<and> (1 :: nat) < length [My_Fixed_Size_PQ_default, \<lparr>fs_limit = 2, fs_entries = []\<rparr>]
   \<and> (0 :: int) < [0, 25] ! 1
   \<and> fs_limit ([My_Fixed_Size_PQ_default, \<lparr>fs_limit = 2, fs_entries = []\<rparr>] ! 1) = [0, 25] ! 1 div 10
   \<and> fs_entries (fold fs_push [3 / 10, 1 / 10, 1 / 2, 2 / 10]
                   ([My_Fixed_Size_PQ_default, \<lparr>fs_limit = 2, fs_entries = []\<rparr>] ! 1))
       = [1 / 10, 2 / 10]"
proof -
  have a: "create_lowest_probs_pqs tenth_opts [0, 25]
             = Inr [My_Fixed_Size_PQ_default, \<lparr>fs_limit = 2, fs_entries = []\<rparr>]"
    by code_simp
  have b: "(1 :: nat) < length [My_Fixed_Size_PQ_default, \<lparr>fs_limit = 2, fs_entries = []\<rparr>]"
    by simp
  have c: "(0 :: int) < [0, 25] ! 1" by simp
  have d: "take (nat ([0, 25 :: int] ! 1 div 10)) (sort [3 / 10, 1 / 10, 1 / 2, 2 / 10 :: real])
             = [1 / 10, 2 / 10]"
    by code_simp
  from lowest_probs_pq_capacity_and_content [OF a b c, of "[3 / 10, 1 / 10, 1 / 2, 2 / 10]"] a b c d
  show ?thesis by simp
qed

text \<open>
  The claim as it was stated has the capacity \<open>\<lceil>n * 0.10\<rceil>\<close>.  For 15 connections that is 2,
  but the queue is created with the capacity 1 and retains one value.
\<close>

theorem lowest_probs_pq_ceiling_counterexample:
  "create_lowest_probs_pqs tenth_opts [0, 15]
     = Inr [My_Fixed_Size_PQ_default, \<lparr>fs_limit = 1, fs_entries = []\<rparr>]
   \<and> \<lceil>of_int 15 * (0.10 :: real)\<rceil> = 2
   \<and> fs_limit \<lparr>fs_limit = 1, fs_entries = []\<rparr> \<noteq> \<lceil>of_int 15 * (0.10 :: real)\<rceil>
   \<and> fs_entries (fold fs_push [3 / 10, 1 / 10, 2 / 10] \<lparr>fs_limit = 1, fs_entries = []\<rparr>)
       = [1 / 10]"
proof -
  have a: "create_lowest_probs_pqs tenth_opts [0, 15]
     = Inr [My_Fixed_Size_PQ_default, \<lparr>fs_limit = 1, fs_entries = []\<rparr>]"
    by code_simp
  have b: "\<lceil>of_int 15 * (0.10 :: real)\<rceil> = 2" by simp
  have c: "fs_entries (fold fs_push [3 / 10, 1 / 10, 2 / 10] \<lparr>fs_limit = 1, fs_entries = []\<rparr>)
       = [1 / 10]"
    by code_simp
  from a b c show ?thesis by simp
qed

subsection \<open>The shared results and the analysis of one connection\<close>

text \<open>
  \<^verbatim>\<open>Analysis_Results\<close> is the class of the file-scope variable \<^verbatim>\<open>f_analysis_results\<close>; its
  constructor sets the four numbers to 0.  The mutex is not a field here: an update under
  the mutex is one step.
\<close>

record Analysis_Results =
  max_possible_total_prob :: real
  total_prob :: real
  lowest_probs_pqs :: "My_Fixed_Size_PQ list"
  desired_conns :: int
  num_conns :: int

definition Analysis_Results_init :: Analysis_Results where
  "Analysis_Results_init =
     \<lparr>max_possible_total_prob = 0, total_prob = 0, lowest_probs_pqs = [],
      desired_conns = 0, num_conns = 0\<rparr>"

text \<open>
  Modelled from the spec: the analysis settings and the architecture structures are
  declared in headers that are not among the sources; the records have the attributes of
  the external interfaces of the spec.
\<close>

record Analysis_Settings =
  length_probabilities :: "real list"
  pin_probabilities :: "real list"
  test_tile_coords :: "Coordinate list"

record Arch_Structs =
  grid :: "Grid_Tile list list"
  block_type :: "Physical_Type_Descriptor list"
  fill_type_index :: int
  grid_size_x :: int
  grid_size_y :: int

text \<open>
  \<^verbatim>\<open>get_sum_of_source_probabilities\<close>; \<open>sum_pin_probs\<close> is its loop over the pins of the class
  of a source, with the running \<^verbatim>\<open>this_pin_prob\<close> and sum.  The result is the pair of
  \<^verbatim>\<open>*sum_probabilities\<close> and \<^verbatim>\<open>*one_pin_prob\<close>.
\<close>

fun sum_pin_probs ::
  "Externals \<Rightarrow> real list \<Rightarrow> int list \<Rightarrow> real \<Rightarrow> real \<Rightarrow> wotan_error + (real \<times> real)" where
  "sum_pin_probs ext pin_probs [] this_pin_prob sum_probabilities =
     Inr (sum_probabilities, this_pin_prob)"
| "sum_pin_probs ext pin_probs (pin # rest) this_pin_prob sum_probabilities =
     bind_err (vec_at pin_probs pin)
       (\<lambda>pin_prob.
          if this_pin_prob = of_int UNDEFINED
          then sum_pin_probs ext pin_probs rest pin_prob (sum_probabilities + pin_prob)
          else if \<not> PROBS_EQUAL ext this_pin_prob pin_prob
          then Inl (Pin_Probs_Not_Equal this_pin_prob pin_prob)
          else sum_pin_probs ext pin_probs rest this_pin_prob (sum_probabilities + this_pin_prob))"

definition get_sum_of_source_probabilities ::
  "Externals \<Rightarrow> nat \<Rightarrow> t_rr_node \<Rightarrow> real list \<Rightarrow> Physical_Type_Descriptor
   \<Rightarrow> wotan_error + (real \<times> real)" where
  "get_sum_of_source_probabilities ext source_node_ind rr_node pin_probs fill_block_type =
     bind_err (vec_at rr_node (int source_node_ind))
       (\<lambda>node.
          case rr_type node of
            SOURCE \<Rightarrow>
              bind_err (vec_at (class_inf fill_block_type) (ptc_num node))
                (\<lambda>pin_class. sum_pin_probs ext pin_probs (pinlist pin_class) (of_int UNDEFINED) 0)
          | IPIN \<Rightarrow>
              bind_err (vec_at pin_probs (ptc_num node)) (\<lambda>p. Inr (p, p))
          | _ \<Rightarrow> Inl Unexpected_Node_Type)"

definition get_num_sinks ::
  "nat \<Rightarrow> t_rr_node \<Rightarrow> Physical_Type_Descriptor \<Rightarrow> wotan_error + int" where
  "get_num_sinks sink_node_ind rr_node fill_block_type =
     bind_err (vec_at rr_node (int sink_node_ind))
       (\<lambda>node.
          if rr_type node \<noteq> SINK then Inl Expected_Sink
          else bind_err (vec_at (class_inf fill_block_type) (ptc_num node))
                 (\<lambda>pin_class. Inr (get_num_pins pin_class)))"

definition get_num_sources ::
  "nat \<Rightarrow> t_rr_node \<Rightarrow> Physical_Type_Descriptor \<Rightarrow> wotan_error + int" where
  "get_num_sources source_node_ind rr_node fill_block_type =
     bind_err (vec_at rr_node (int source_node_ind))
       (\<lambda>node.
          if rr_type node \<noteq> SOURCE then Inl Expected_Source
          else bind_err (vec_at (class_inf fill_block_type) (ptc_num node))
                 (\<lambda>pin_class. Inr (get_num_pins pin_class)))"

text \<open>
  \<^verbatim>\<open>increment_probability_metric\<close>: the loop pushes the same value \<open>div_factor\<close> times into
  the queue of the connection length.
\<close>

definition increment_probability_metric ::
  "real \<Rightarrow> int \<Rightarrow> nat \<Rightarrow> nat \<Rightarrow> int \<Rightarrow> int \<Rightarrow> Analysis_Results
   \<Rightarrow> wotan_error + Analysis_Results" where
  "increment_probability_metric probability_increment connection_length source_node_ind
       sink_node_ind num_subsources num_subsinks results =
     (let results1 = results\<lparr>total_prob := total_prob results + probability_increment\<rparr>;
          div_factor = num_subsources * num_subsinks;
          push_value = probability_increment / of_int div_factor
      in if div_factor \<le> 0 then Inr results1
         else bind_err (vec_at (lowest_probs_pqs results1) connection_length)
                (\<lambda>pq. Inr (results1\<lparr>lowest_probs_pqs :=
                              (lowest_probs_pqs results1)
                                [nat connection_length := (fs_push push_value ^^ nat div_factor) pq]\<rparr>)))"

text \<open>
  The pointer \<^verbatim>\<open>fill_type\<close> that \<^verbatim>\<open>estimate_connection_probability\<close> derives from the
  architecture: \<^verbatim>\<open>NULL\<close> when no fill type has been set, else the address of the entry of
  \<^verbatim>\<open>block_type\<close>.
\<close>

definition fill_type_pointer :: "Arch_Structs \<Rightarrow> Physical_Type_Descriptor option" where
  "fill_type_pointer arch_structs =
     (if fill_type_index arch_structs \<noteq> UNDEFINED
      then (case vec_at (block_type arch_structs) (fill_type_index arch_structs) of
              Inr t \<Rightarrow> Some t | Inl e \<Rightarrow> None)
      else None)"

text \<open>
  \<^verbatim>\<open>analyze_connection\<close>.  It works on the arenas of the worker and on the shared results;
  the macro \<^verbatim>\<open>PROBABILITY_MODE\<close> is the parameter \<open>probability_mode\<close>.
\<close>

definition analyze_connection ::
  "Externals \<Rightarrow> e_probability_mode \<Rightarrow> nat \<Rightarrow> nat \<Rightarrow> Analysis_Settings \<Rightarrow> Arch_Structs \<Rightarrow> int
   \<Rightarrow> int \<Rightarrow> e_topological_mode \<Rightarrow> User_Options \<Rightarrow> Conn_State \<times> Analysis_Results
   \<Rightarrow> wotan_error + (Conn_State \<times> Analysis_Results)" where
  "analyze_connection ext probability_mode source_node_ind sink_node_ind analysis_settings
       arch_structs conn_length number_conns_at_length topological_mode user_opts state =
     (case state of (st, results) \<Rightarrow>
      bind_err (vec_at (length_probabilities analysis_settings) conn_length)
        (\<lambda>length_prob.
      bind_err (vec_at (block_type arch_structs) (fill_type_index arch_structs))
        (\<lambda>fill_block_type.
      bind_err (vec_at (st_rr_node st) (int source_node_ind))
        (\<lambda>source_node.
      let adjusted_source_node_ind =
            (if rr_type source_node = IPIN then get_ipin_source_node_ind ext source_node
             else source_node_ind)
      in
      bind_err (get_sum_of_source_probabilities ext source_node_ind (st_rr_node st)
                  (pin_probabilities analysis_settings) fill_block_type)
        (\<lambda>(sum_of_source_probabilities, one_pin_prob).
      bind_err (get_num_sinks sink_node_ind (st_rr_node st) fill_block_type)
        (\<lambda>num_sinks.
      bind_err (get_num_sources source_node_ind (st_rr_node st) fill_block_type)
        (\<lambda>num_sources.
      let sinks = (if topological_mode = ENUMERATE then num_sinks else 1);
          probability = (if topological_mode = ENUMERATE then sum_of_source_probabilities
                         else one_pin_prob)
      in
      bind_err
        (case topological_mode of
           ENUMERATE \<Rightarrow>
             bind_err (enumerate_connection_paths ext source_node_ind sink_node_ind conn_length
                         user_opts
                         (scaling_factor_for_enumerate sinks probability length_prob
                            number_conns_at_length) st)
               (\<lambda>st'. Inr (st', results\<lparr>num_conns := num_conns results + 1\<rparr>))
         | PROBABILITY \<Rightarrow>
             bind_err (estimate_connection_probability ext probability_mode source_node_ind
                         sink_node_ind conn_length user_opts (fill_type_pointer arch_structs) st)
               (\<lambda>(st', probability_connection_routable).
                  if probability_connection_routable \<ge> 0
                  then
                    (let scaling_factor = of_int num_sinks * of_int num_sources * length_prob
                                            / of_int number_conns_at_length;
                         probability_increment = scaling_factor * probability_connection_routable
                     in bind_err (increment_probability_metric probability_increment conn_length
                                    adjusted_source_node_ind sink_node_ind num_sources num_sinks
                                    results)
                          (\<lambda>results1.
                             Inr (st', results1\<lparr>max_possible_total_prob :=
                                        max_possible_total_prob results1 + scaling_factor * 1\<rparr>)))
                  else Inl (Negative_Probability probability_connection_routable)))
        (\<lambda>(st', results').
      bind_err (clean_node_data_structs (st_nodes_visited st') (st_ss_distances st')
                  (st_node_topo_inf st') (get_max_path_weight ext conn_length))
        (\<lambda>(nv, ss, topo).
           Inr (st'\<lparr>st_ss_distances := ss, st_node_topo_inf := topo, st_nodes_visited := nv\<rparr>,
                results'))))))))))"

lemma increment_probability_metric_counters:
  "increment_probability_metric inc len src snk a b r = Inr r'
   \<Longrightarrow> num_conns r' = num_conns r \<and> desired_conns r' = desired_conns r"
  by (auto simp: increment_probability_metric_def Let_def bind_err_def split: if_splits sum.splits)

lemma analyze_connection_counters:
  assumes "analyze_connection ext pm src snk settings arch len nconns mode opts (st, r) = Inr (st', r')"
  shows "desired_conns r' = desired_conns r
       \<and> num_conns r' = num_conns r + (if mode = ENUMERATE then 1 else 0)"
  using assms
  by (cases mode)
    (auto simp: analyze_connection_def Let_def bind_err_def
      split: sum.splits prod.splits if_splits dest: increment_probability_metric_counters)

subsection \<open>The counters of the shared results during a run\<close>

text \<open>
  The shared results are written in four critical sections, each under the mutex: in
  \<^verbatim>\<open>analyze_connection\<close>, \<^verbatim>\<open>num_conns++\<close> after the enumeration of the paths (ENUMERATE),
  the call of \<^verbatim>\<open>increment_probability_metric\<close> and then the addition to
  \<^verbatim>\<open>max_possible_total_prob\<close> (PROBABILITY); and, in the innermost loop body of
  \<^verbatim>\<open>enumerate_paths_from_source\<close>, \<^verbatim>\<open>desired_conns++\<close> after \<^verbatim>\<open>analyze_connection\<close> has
  returned.  Between its last update of the results and its return \<^verbatim>\<open>analyze_connection\<close>
  cleans the arenas of the worker.

  A worker is at one of four points of the loop body: before its next update of the
  results in \<^verbatim>\<open>analyze_connection\<close> (about to call it, or in the traversals of the call);
  in \<^verbatim>\<open>analyze_connection\<close> between the two critical sections of the PROBABILITY branch;
  in \<^verbatim>\<open>analyze_connection\<close> after its last update of the results; and after the return
  of \<^verbatim>\<open>analyze_connection\<close>, before \<^verbatim>\<open>desired_conns++\<close>.
\<close>

datatype Worker_Point = Dispatching | Metric_Added | Results_Updated | Returned

text \<open>
  \<open>run_point N\<close> is the set of the states that the shared results go through when \<open>N\<close>
  workers run the loop body (in either phase; the results are not reset between the
  phases), paired with the point of every worker.  Each critical section is one step.  The
  queues of the initial results are those that \<^verbatim>\<open>analyze_fpga_architecture\<close> has created.
  The arenas of a worker are not tracked, so a worker may take the step of a critical
  section whatever its traversal has computed.
\<close>

inductive run_point :: "nat \<Rightarrow> Analysis_Results \<times> (nat \<Rightarrow> Worker_Point) \<Rightarrow> bool"
  for N :: nat where
  start: "run_point N (Analysis_Results_init\<lparr>lowest_probs_pqs := pqs\<rparr>, \<lambda>t. Dispatching)"
| num_conns_incremented:
    "run_point N (results, points) \<Longrightarrow> t < N \<Longrightarrow> points t = Dispatching
     \<Longrightarrow> run_point N (results\<lparr>num_conns := num_conns results + 1\<rparr>,
                      points(t := Results_Updated))"
| metric_incremented:
    "run_point N (results, points) \<Longrightarrow> t < N \<Longrightarrow> points t = Dispatching
     \<Longrightarrow> increment_probability_metric probability_increment connection_length source_node_ind
           sink_node_ind num_subsources num_subsinks results = Inr results'
     \<Longrightarrow> run_point N (results', points(t := Metric_Added))"
| max_possible_added:
    "run_point N (results, points) \<Longrightarrow> t < N \<Longrightarrow> points t = Metric_Added
     \<Longrightarrow> run_point N (results\<lparr>max_possible_total_prob :=
                                 max_possible_total_prob results + scaling_factor * 1\<rparr>,
                      points(t := Results_Updated))"
| returned:
    "run_point N (results, points) \<Longrightarrow> t < N \<Longrightarrow> points t = Results_Updated
     \<Longrightarrow> run_point N (results, points(t := Returned))"
| counted:
    "run_point N (results, points) \<Longrightarrow> t < N \<Longrightarrow> points t = Returned
     \<Longrightarrow> run_point N (results\<lparr>desired_conns := desired_conns results + 1\<rparr>,
                      points(t := Dispatching))"

text \<open>
  The workers that have made the last update of the results of their call of
  \<^verbatim>\<open>analyze_connection\<close> and have not yet incremented \<open>desired_conns\<close>.
\<close>

definition uncounted_workers :: "nat \<Rightarrow> (nat \<Rightarrow> Worker_Point) \<Rightarrow> nat set" where
  "uncounted_workers N points =
     {t. t < N \<and> (points t = Results_Updated \<or> points t = Returned)}"

text \<open>
  The effect of a call of \<^verbatim>\<open>analyze_connection\<close> on the shared results is that of its
  critical sections.
\<close>

lemma analyze_connection_results:
  assumes "analyze_connection ext pm src snk settings arch len nconns mode opts (st, r) = Inr (st', r')"
  shows "(mode = ENUMERATE \<and> r' = r\<lparr>num_conns := num_conns r + 1\<rparr>)
       \<or> (mode = PROBABILITY
          \<and> (\<exists>inc adj a b sf r1.
                increment_probability_metric inc len adj snk a b r = Inr r1
                \<and> r' = r1\<lparr>max_possible_total_prob := max_possible_total_prob r1 + sf * 1\<rparr>))"
  using assms
  apply (cases mode)
   apply (auto simp: analyze_connection_def Let_def bind_err_def
      split: sum.splits prod.splits if_splits)
   apply blast+
  done

text \<open>
  A worker that calls \<^verbatim>\<open>analyze_connection\<close> on the shared results, with no step of
  another worker in between, takes the results through run points to the result of the
  call, and then counts the connection.
\<close>

lemma analyze_connection_run_points:
  assumes p: "run_point N (r, points)" and t: "t < N" and d: "points t = Dispatching"
    and a: "analyze_connection ext pm src snk settings arch len nconns mode opts (st, r) = Inr (st', r')"
  shows "run_point N (r', points(t := Results_Updated))"
    and "run_point N (r', points(t := Returned))"
    and "run_point N (r'\<lparr>desired_conns := desired_conns r' + 1\<rparr>, points)"
proof -
  from analyze_connection_results [OF a]
  show u: "run_point N (r', points(t := Results_Updated))"
  proof (elim disjE conjE exE)
    assume "r' = r\<lparr>num_conns := num_conns r + 1\<rparr>"
    with run_point.num_conns_incremented [OF p t d] show ?thesis by simp
  next
    fix inc adj a b sf r1
    assume i: "increment_probability_metric inc len adj snk a b r = Inr r1"
      and r': "r' = r1\<lparr>max_possible_total_prob := max_possible_total_prob r1 + sf * 1\<rparr>"
    from run_point.metric_incremented [OF p t d i]
    have "run_point N (r1, points(t := Metric_Added))" .
    from run_point.max_possible_added [OF this t, of sf] r' show ?thesis by simp
  qed
  from run_point.returned [OF u t]
  show v: "run_point N (r', points(t := Returned))" by simp
  from run_point.counted [OF v t] d
  show "run_point N (r'\<lparr>desired_conns := desired_conns r' + 1\<rparr>, points)"
    by (simp add: fun_upd_idem)
qed

lemma uncounted_workers_finite: "finite (uncounted_workers N points)"
  by (rule finite_subset [of _ "{..<N}"]) (auto simp: uncounted_workers_def)

lemma uncounted_workers_card: "card (uncounted_workers N points) \<le> N"
proof -
  have "card (uncounted_workers N points) \<le> card {..<N}"
    by (rule card_mono) (auto simp: uncounted_workers_def)
  then show ?thesis by simp
qed

lemma uncounted_workers_enter:
  assumes "t < N" "points t \<noteq> Results_Updated" "points t \<noteq> Returned"
  shows "card (uncounted_workers N (points(t := Results_Updated)))
         = Suc (card (uncounted_workers N points))"
proof -
  from assms have "uncounted_workers N (points(t := Results_Updated))
                   = insert t (uncounted_workers N points)"
    by (auto simp: uncounted_workers_def)
  moreover from assms have "t \<notin> uncounted_workers N points"
    by (simp add: uncounted_workers_def)
  ultimately show ?thesis by (simp add: uncounted_workers_finite)
qed

lemma uncounted_workers_stay:
  assumes "points t = Results_Updated"
  shows "uncounted_workers N (points(t := Returned)) = uncounted_workers N points"
  using assms by (auto simp: uncounted_workers_def)

lemma uncounted_workers_before:
  assumes "points t = Dispatching"
  shows "uncounted_workers N (points(t := Metric_Added)) = uncounted_workers N points"
  using assms by (auto simp: uncounted_workers_def)

lemma uncounted_workers_leave:
  assumes "t < N" "points t = Returned"
  shows "Suc (card (uncounted_workers N (points(t := Dispatching))))
         = card (uncounted_workers N points)"
proof -
  from assms have "uncounted_workers N (points(t := Dispatching))
                   = uncounted_workers N points - {t}"
    by (auto simp: uncounted_workers_def)
  moreover from assms have "t \<in> uncounted_workers N points"
    by (simp add: uncounted_workers_def)
  ultimately show ?thesis
    using card_Suc_Diff1 [OF uncounted_workers_finite, of t N points] by simp
qed

lemma run_point_invariant:
  "run_point N s \<Longrightarrow>
     0 \<le> num_conns (fst s) \<and> 0 \<le> desired_conns (fst s)
     \<and> num_conns (fst s) \<le> desired_conns (fst s) + int (card (uncounted_workers N (snd s)))"
proof (induction rule: run_point.induct)
  case (start pqs)
  show ?case by (simp add: Analysis_Results_init_def)
next
  case (num_conns_incremented results points t)
  from num_conns_incremented.hyps(2,3)
  have "card (uncounted_workers N (points(t := Results_Updated)))
        = Suc (card (uncounted_workers N points))"
    by (intro uncounted_workers_enter) simp_all
  with num_conns_incremented.IH show ?case by (simp add: fun_upd_def)
next
  case (metric_incremented results points t probability_increment connection_length
      source_node_ind sink_node_ind num_subsources num_subsinks results')
  from metric_incremented.hyps(3)
  have "uncounted_workers N (points(t := Metric_Added)) = uncounted_workers N points"
    by (rule uncounted_workers_before)
  with increment_probability_metric_counters [OF metric_incremented.hyps(4)]
    metric_incremented.IH
  show ?case by (simp add: fun_upd_def)
next
  case (max_possible_added results points t scaling_factor)
  from max_possible_added.hyps(2,3)
  have "card (uncounted_workers N (points(t := Results_Updated)))
        = Suc (card (uncounted_workers N points))"
    by (intro uncounted_workers_enter) simp_all
  with max_possible_added.IH show ?case by (simp add: fun_upd_def)
next
  case (returned results points t)
  from returned.hyps(3)
  have "uncounted_workers N (points(t := Returned)) = uncounted_workers N points"
    by (rule uncounted_workers_stay)
  with returned.IH show ?case by (simp add: fun_upd_def)
next
  case (counted results points t)
  from counted.hyps(2,3)
  have "Suc (card (uncounted_workers N (points(t := Dispatching))))
        = card (uncounted_workers N points)"
    by (rule uncounted_workers_leave)
  with counted.IH show ?case by (simp add: fun_upd_def)
qed

subsection \<open>Claim C9: the counters of dispatched and analysed connections\<close>

text \<open>
  Claim C9, as amended.  At every point during a run, \<open>num_conns \<ge> 0\<close> and
  \<open>desired_conns + w \<ge> num_conns\<close>, where \<open>w\<close> is the number of workers that have made the
  last update of the shared results in their call of \<^verbatim>\<open>analyze_connection\<close> (in ENUMERATE
  mode the increment of \<open>num_conns\<close>) and have not yet incremented \<open>desired_conns\<close> for that
  connection; \<open>w\<close> is at most the number of threads.  So \<open>desired_conns \<ge> num_conns \<ge> 0\<close>
  holds whenever no worker is between those two updates, in particular after every
  complete iteration of a single worker and at the end of each phase.  \<open>num_conns\<close> is
  incremented once per connection analysed in ENUMERATE mode, \<open>desired_conns\<close> once per
  connection dispatched in either phase.
\<close>

theorem counters_invariant:
  assumes "run_point N (results, points)"
  shows "0 \<le> num_conns results
       \<and> num_conns results \<le> desired_conns results + int (card (uncounted_workers N points))
       \<and> card (uncounted_workers N points) \<le> N
       \<and> (uncounted_workers N points = {} \<longrightarrow> num_conns results \<le> desired_conns results)"
proof -
  from run_point_invariant [OF assms]
  have n: "0 \<le> num_conns results"
    and l: "num_conns results \<le> desired_conns results + int (card (uncounted_workers N points))"
    by simp_all
  from n l uncounted_workers_card [of N points] show ?thesis by auto
qed

text \<open>
  The first connection of the enumeration phase: the source and the sink of the line
  graph, on a single worker.
\<close>

definition line_settings :: Analysis_Settings where
  "line_settings = \<lparr>length_probabilities = [0, 1 / 2], pin_probabilities = [1 / 2, 0, 0],
                    test_tile_coords = []\<rparr>"

definition line_arch :: Arch_Structs where
  "line_arch = \<lparr>grid = [], block_type = [test_fill_type], fill_type_index = 0,
                grid_size_x = 0, grid_size_y = 0\<rparr>"

definition results_after_first_connection :: Analysis_Results where
  "results_after_first_connection =
     \<lparr>max_possible_total_prob = 0, total_prob = 0, lowest_probs_pqs = [],
      desired_conns = 0, num_conns = 1\<rparr>"

text \<open>The worker 0 at the given point of the loop body, any other worker dispatching.\<close>

definition worker_0_at :: "Worker_Point \<Rightarrow> nat \<Rightarrow> Worker_Point" where
  "worker_0_at p = (\<lambda>t. Dispatching)(0 := p)"

lemma first_connection_analyzed:
  "analyze_connection (test_externals (1 / 2) 3) PROPAGATE 0 4 line_settings line_arch 1 4
     ENUMERATE test_opts (line_state, Analysis_Results_init\<lparr>lowest_probs_pqs := []\<rparr>)
   = Inr (line_state\<lparr>st_node_topo_inf := (fresh_topo 5 4)
        [0 := \<lparr>buckets = \<lparr>source_buckets = [1 / 16, 0, 0, 0], sink_buckets = [0, 0, 0, 0]\<rparr>,
                level = UNDEFINED, was_visited = False\<rparr>,
         4 := \<lparr>buckets = \<lparr>source_buckets = [0, 0, 0, 0], sink_buckets = [1, 0, 0, 0]\<rparr>,
                level = UNDEFINED, was_visited = False\<rparr>]\<rparr>, results_after_first_connection)"
  by code_simp

lemma first_connection_points:
  "run_point 1 (results_after_first_connection, worker_0_at Results_Updated)"
  "run_point 1 (results_after_first_connection, worker_0_at Returned)"
  "run_point 1 (results_after_first_connection\<lparr>desired_conns := 1\<rparr>, worker_0_at Dispatching)"
proof -
  have s: "run_point 1 (Analysis_Results_init\<lparr>lowest_probs_pqs := []\<rparr>, \<lambda>t. Dispatching)"
    by (rule run_point.start)
  have d: "(\<lambda>t :: nat. Dispatching) 0 = Dispatching" by simp
  note r = analyze_connection_run_points [where points = "\<lambda>t. Dispatching" and t = 0,
      OF s _ d first_connection_analyzed]
  from r(1) show "run_point 1 (results_after_first_connection, worker_0_at Results_Updated)"
    by (simp add: worker_0_at_def)
  from r(2) show "run_point 1 (results_after_first_connection, worker_0_at Returned)"
    by (simp add: worker_0_at_def)
  have "worker_0_at Dispatching = (\<lambda>t. Dispatching)"
    by (auto simp: worker_0_at_def)
  with r(3) show "run_point 1 (results_after_first_connection\<lparr>desired_conns := 1\<rparr>,
                     worker_0_at Dispatching)"
    by (simp add: results_after_first_connection_def)
qed

lemma uncounted_worker_0:
  "uncounted_workers 1 (worker_0_at Results_Updated) = {0}"
  "uncounted_workers 1 (worker_0_at Returned) = {0}"
  "uncounted_workers 1 (worker_0_at Dispatching) = {}"
  by (auto simp: uncounted_workers_def worker_0_at_def)

theorem counters_invariant_witness:
  "run_point 1 (results_after_first_connection, worker_0_at Results_Updated)
   \<and> uncounted_workers 1 (worker_0_at Results_Updated) = {0}
   \<and> 0 \<le> num_conns results_after_first_connection
   \<and> num_conns results_after_first_connection
       \<le> desired_conns results_after_first_connection
         + int (card (uncounted_workers 1 (worker_0_at Results_Updated)))
   \<and> card (uncounted_workers 1 (worker_0_at Results_Updated)) \<le> 1
   \<and> run_point 1 (results_after_first_connection\<lparr>desired_conns := 1\<rparr>, worker_0_at Dispatching)
   \<and> uncounted_workers 1 (worker_0_at Dispatching) = {}
   \<and> num_conns (results_after_first_connection\<lparr>desired_conns := 1\<rparr>)
       \<le> desired_conns (results_after_first_connection\<lparr>desired_conns := 1\<rparr>)"
  using counters_invariant [OF first_connection_points(1)]
    counters_invariant [OF first_connection_points(3)]
    first_connection_points uncounted_worker_0
  by simp

text \<open>
  The claim as it was stated has \<open>desired_conns \<ge> num_conns\<close> at every point.  In the first
  connection of the enumeration phase, \<^verbatim>\<open>analyze_connection\<close> increments \<open>num_conns\<close> to 1;
  from that point, through the cleanup and the return of \<^verbatim>\<open>analyze_connection\<close>, until
  the worker increments \<open>desired_conns\<close>, \<open>num_conns\<close> is 1 and \<open>desired_conns\<close> is 0.
\<close>

theorem counters_every_point_counterexample:
  "analyze_connection (test_externals (1 / 2) 3) PROPAGATE 0 4 line_settings line_arch 1 4
     ENUMERATE test_opts (line_state, Analysis_Results_init\<lparr>lowest_probs_pqs := []\<rparr>)
   = Inr (line_state\<lparr>st_node_topo_inf := (fresh_topo 5 4)
        [0 := \<lparr>buckets = \<lparr>source_buckets = [1 / 16, 0, 0, 0], sink_buckets = [0, 0, 0, 0]\<rparr>,
                level = UNDEFINED, was_visited = False\<rparr>,
         4 := \<lparr>buckets = \<lparr>source_buckets = [0, 0, 0, 0], sink_buckets = [1, 0, 0, 0]\<rparr>,
                level = UNDEFINED, was_visited = False\<rparr>]\<rparr>, results_after_first_connection)
   \<and> run_point 1 (results_after_first_connection, worker_0_at Results_Updated)
   \<and> run_point 1 (results_after_first_connection, worker_0_at Returned)
   \<and> num_conns results_after_first_connection = 1
   \<and> desired_conns results_after_first_connection = 0
   \<and> \<not> (desired_conns results_after_first_connection \<ge> num_conns results_after_first_connection
        \<and> num_conns results_after_first_connection \<ge> 0)"
  using first_connection_analyzed first_connection_points(1,2)
  by (simp add: results_after_first_connection_def)

subsection \<open>Construction of the workload of the workers\<close>

text \<open>
  The head of \<^verbatim>\<open>analyze_test_tile_connections\<close>, up to the call of \<^verbatim>\<open>launch_pthreads\<close>: the
  loop over the test tiles that fills, for every worker, the lists \<^verbatim>\<open>source_node_inds\<close> and
  \<^verbatim>\<open>tile_coords\<close> of its \<^verbatim>\<open>Conn_Info\<close>.  The other fields of \<^verbatim>\<open>Conn_Info\<close> are pointers to the
  shared structures and to the arenas of the worker, and the mode; they are the same for
  every entry and are not fields of the record.

  The lookup table \<^verbatim>\<open>rr_node_index[type][x][y][ptc]\<close> of the routing structures is not among
  the sources; it is the parameter \<open>rr_node_index\<close>.
\<close>

definition CORE_OFFSET :: int where
  "CORE_OFFSET = 3"

record Conn_Info =
  source_node_inds :: "nat list"
  tile_coords :: "Coordinate list"

type_synonym t_thread_conn_info = "Conn_Info list"
type_synonym t_rr_node_index = "e_rr_type \<Rightarrow> int \<Rightarrow> int \<Rightarrow> int \<Rightarrow> nat"

text \<open>
  The test of the core region: the condition under which a test tile is skipped when the
  mode is PROBABILITY and \<^verbatim>\<open>analyze_core\<close> is set.
\<close>

definition outside_core :: "Coordinate \<Rightarrow> int \<Rightarrow> int \<Rightarrow> bool" where
  "outside_core tile_coord gx gy \<longleftrightarrow>
     coord_x tile_coord < CORE_OFFSET \<or> coord_x tile_coord > gx - 1 - CORE_OFFSET
     \<or> coord_y tile_coord < CORE_OFFSET \<or> coord_y tile_coord > gy - 1 - CORE_OFFSET"

text \<open>
  \<open>assign_source\<close> is the block that appends a node and the tile to the lists of the
  worker \<open>ithread\<close> and advances the round-robin counter.
\<close>

definition assign_source ::
  "int \<Rightarrow> nat \<Rightarrow> Coordinate \<Rightarrow> int \<Rightarrow> t_thread_conn_info
   \<Rightarrow> wotan_error + (t_thread_conn_info \<times> int)" where
  "assign_source ithread source_node_index tile_coord n_threads thread_conn_info =
     bind_err (vec_at thread_conn_info ithread)
       (\<lambda>ci.
          Inr (thread_conn_info[nat ithread :=
                 ci\<lparr>source_node_inds := source_node_inds ci @ [source_node_index],
                    tile_coords := tile_coords ci @ [tile_coord]\<rparr>],
               if ithread + 1 = n_threads then 0 else ithread + 1))"

fun assign_ipins ::
  "t_rr_node_index \<Rightarrow> Coordinate \<Rightarrow> int \<Rightarrow> int list \<Rightarrow> t_thread_conn_info \<times> int
   \<Rightarrow> wotan_error + (t_thread_conn_info \<times> int)" where
  "assign_ipins rr_node_index tile_coord n_threads [] s = Inr s"
| "assign_ipins rr_node_index tile_coord n_threads (pin_index # rest) s =
     (case s of (thread_conn_info, ithread_sink) \<Rightarrow>
        bind_err (assign_source ithread_sink
                    (rr_node_index IPIN (coord_x tile_coord) (coord_y tile_coord) pin_index)
                    tile_coord n_threads thread_conn_info)
          (assign_ipins rr_node_index tile_coord n_threads rest))"

fun assign_classes ::
  "t_rr_node_index \<Rightarrow> Coordinate \<Rightarrow> int \<Rightarrow> int \<Rightarrow> Pin_Class list
   \<Rightarrow> t_thread_conn_info \<times> int \<times> int
   \<Rightarrow> wotan_error + (t_thread_conn_info \<times> int \<times> int)" where
  "assign_classes rr_node_index tile_coord n_threads iclass [] s = Inr s"
| "assign_classes rr_node_index tile_coord n_threads iclass (pin_class # rest) s =
     (case s of (thread_conn_info, ithread_source, ithread_sink) \<Rightarrow>
        bind_err
          (case pin_type pin_class of
             DRIVER \<Rightarrow>
               bind_err (assign_source ithread_source
                           (rr_node_index SOURCE (coord_x tile_coord) (coord_y tile_coord) iclass)
                           tile_coord n_threads thread_conn_info)
                 (\<lambda>(tci, ithread_source'). Inr (tci, ithread_source', ithread_sink))
           | RECEIVER \<Rightarrow>
               bind_err (assign_ipins rr_node_index tile_coord n_threads (pinlist pin_class)
                           (thread_conn_info, ithread_sink))
                 (\<lambda>(tci, ithread_sink'). Inr (tci, ithread_source, ithread_sink'))
           | OPEN \<Rightarrow> Inl Unexpected_Pin_Type)
          (assign_classes rr_node_index tile_coord n_threads (iclass + 1) rest))"

text \<open>The body of the loop for one test tile that is not skipped.\<close>

definition assign_test_tile ::
  "t_rr_node_index \<Rightarrow> Arch_Structs \<Rightarrow> int \<Rightarrow> Coordinate \<Rightarrow> t_thread_conn_info \<times> int \<times> int
   \<Rightarrow> wotan_error + (t_thread_conn_info \<times> int \<times> int)" where
  "assign_test_tile rr_node_index arch_structs n_threads tile_coord s =
     bind_err (vec_at (grid arch_structs) (coord_x tile_coord))
       (\<lambda>column.
     bind_err (vec_at column (coord_y tile_coord))
       (\<lambda>test_tile.
     bind_err (vec_at (block_type arch_structs) (type_index test_tile))
       (\<lambda>tile_type.
          assign_classes rr_node_index tile_coord n_threads 0 (class_inf tile_type) s)))"

fun assign_test_tiles ::
  "t_rr_node_index \<Rightarrow> Arch_Structs \<Rightarrow> User_Options \<Rightarrow> e_topological_mode \<Rightarrow> Coordinate list
   \<Rightarrow> t_thread_conn_info \<times> int \<times> int
   \<Rightarrow> wotan_error + (t_thread_conn_info \<times> int \<times> int)" where
  "assign_test_tiles rr_node_index arch_structs user_opts topological_mode [] s = Inr s"
| "assign_test_tiles rr_node_index arch_structs user_opts topological_mode (tile_coord # rest) s =
     (if topological_mode = PROBABILITY \<and> analyze_core user_opts
         \<and> outside_core tile_coord (grid_size_x arch_structs) (grid_size_y arch_structs)
      then assign_test_tiles rr_node_index arch_structs user_opts topological_mode rest s
      else bind_err (assign_test_tile rr_node_index arch_structs (num_threads user_opts)
                       tile_coord s)
             (assign_test_tiles rr_node_index arch_structs user_opts topological_mode rest))"

definition build_thread_conn_info ::
  "t_rr_node_index \<Rightarrow> Arch_Structs \<Rightarrow> User_Options \<Rightarrow> Analysis_Settings \<Rightarrow> e_topological_mode
   \<Rightarrow> wotan_error + t_thread_conn_info" where
  "build_thread_conn_info rr_node_index arch_structs user_opts analysis_settings topological_mode =
     bind_err (vector_assign_count (num_threads user_opts))
       (\<lambda>n.
     bind_err (assign_test_tiles rr_node_index arch_structs user_opts topological_mode
                 (test_tile_coords analysis_settings)
                 (replicate (nat n) \<lparr>source_node_inds = [], tile_coords = []\<rparr>, 0, 0))
       (\<lambda>(thread_conn_info, ithread_source, ithread_sink). Inr thread_conn_info))"

lemma assign_test_tiles_core_filter:
  assumes "analyze_core user_opts"
  shows "assign_test_tiles rri arch user_opts PROBABILITY tiles s
         = assign_test_tiles rri arch (user_opts\<lparr>analyze_core := False\<rparr>) PROBABILITY
             (filter (\<lambda>c. \<not> outside_core c (grid_size_x arch) (grid_size_y arch)) tiles) s"
proof (induction tiles arbitrary: s)
  case Nil
  show ?case by simp
next
  case (Cons c tiles)
  show ?case
  proof (cases "outside_core c (grid_size_x arch) (grid_size_y arch)")
    case True
    with assms Cons.IH show ?thesis by simp
  next
    case False
    with assms Cons.IH show ?thesis
      by (cases "assign_test_tile rri arch (num_threads user_opts) c s") simp_all
  qed
qed

lemma assign_test_tiles_enumerate:
  "assign_test_tiles rri arch user_opts ENUMERATE tiles s
   = assign_test_tiles rri arch (user_opts\<lparr>analyze_core := False\<rparr>) ENUMERATE tiles s"
proof (induction tiles arbitrary: s)
  case Nil
  show ?case by simp
next
  case (Cons c tiles)
  then show ?case
    by (cases "assign_test_tile rri arch (num_threads user_opts) c s") simp_all
qed

subsection \<open>Claim C3: the core region of the workload\<close>

text \<open>
  Claim C3, as amended.  When \<^verbatim>\<open>analyze_core\<close> is true, the workload construction of the
  PROBABILITY phase excludes every test tile within 3 of a perimeter: it builds what the
  construction without the flag builds from the test tiles of the core, so the tiles
  outside the core are skipped without an error; on a 12 by 12 grid the core is
  \<open>x \<in> [3..8]\<close> and \<open>y \<in> [3..8]\<close>.  The workload construction of the ENUMERATE phase does not
  look at the flag: it takes every test tile.
\<close>

theorem core_filter_of_probability_phase:
  assumes "analyze_core user_opts"
  shows "build_thread_conn_info rr_node_index arch_structs user_opts analysis_settings PROBABILITY
         = build_thread_conn_info rr_node_index arch_structs (user_opts\<lparr>analyze_core := False\<rparr>)
             (analysis_settings\<lparr>test_tile_coords :=
                filter (\<lambda>c. \<not> outside_core c (grid_size_x arch_structs) (grid_size_y arch_structs))
                  (test_tile_coords analysis_settings)\<rparr>) PROBABILITY
       \<and> (\<not> outside_core tile_coord 12 12
            \<longleftrightarrow> 3 \<le> coord_x tile_coord \<and> coord_x tile_coord \<le> 8
                \<and> 3 \<le> coord_y tile_coord \<and> coord_y tile_coord \<le> 8)
       \<and> build_thread_conn_info rr_node_index arch_structs user_opts analysis_settings ENUMERATE
         = build_thread_conn_info rr_node_index arch_structs (user_opts\<lparr>analyze_core := False\<rparr>)
             analysis_settings ENUMERATE"
proof (intro conjI)
  show "build_thread_conn_info rr_node_index arch_structs user_opts analysis_settings PROBABILITY
         = build_thread_conn_info rr_node_index arch_structs (user_opts\<lparr>analyze_core := False\<rparr>)
             (analysis_settings\<lparr>test_tile_coords :=
                filter (\<lambda>c. \<not> outside_core c (grid_size_x arch_structs) (grid_size_y arch_structs))
                  (test_tile_coords analysis_settings)\<rparr>) PROBABILITY"
    by (simp add: build_thread_conn_info_def assign_test_tiles_core_filter [OF assms])
  show "\<not> outside_core tile_coord 12 12
            \<longleftrightarrow> 3 \<le> coord_x tile_coord \<and> coord_x tile_coord \<le> 8
                \<and> 3 \<le> coord_y tile_coord \<and> coord_y tile_coord \<le> 8"
    by (auto simp: outside_core_def CORE_OFFSET_def)
  show "build_thread_conn_info rr_node_index arch_structs user_opts analysis_settings ENUMERATE
         = build_thread_conn_info rr_node_index arch_structs (user_opts\<lparr>analyze_core := False\<rparr>)
             analysis_settings ENUMERATE"
    by (simp add: build_thread_conn_info_def assign_test_tiles_enumerate [of _ _ user_opts])
qed

text \<open>A 12 by 12 grid of logic blocks with one driver class and one class of two input pins.\<close>

definition grid12_arch :: Arch_Structs where
  "grid12_arch =
     \<lparr>grid = replicate 12 (replicate 12 \<lparr>type_index = 0, width_offset = 0, height_offset = 0\<rparr>),
      block_type = [test_fill_type], fill_type_index = 0, grid_size_x = 12, grid_size_y = 12\<rparr>"

definition grid12_index :: t_rr_node_index where
  "grid12_index t x y ptc = nat (100 * x + 10 * y + ptc)"

definition grid12_settings :: Analysis_Settings where
  "grid12_settings =
     \<lparr>length_probabilities = [0, 1 / 2], pin_probabilities = [1 / 2, 0, 0],
      test_tile_coords = [\<lparr>coord_x = 1, coord_y = 1\<rparr>, \<lparr>coord_x = 3, coord_y = 8\<rparr>,
                          \<lparr>coord_x = 9, coord_y = 5\<rparr>]\<rparr>"

definition core_tile_workload :: t_thread_conn_info where
  "core_tile_workload =
     [\<lparr>source_node_inds = [380, 381, 382],
       tile_coords = [\<lparr>coord_x = 3, coord_y = 8\<rparr>, \<lparr>coord_x = 3, coord_y = 8\<rparr>,
                      \<lparr>coord_x = 3, coord_y = 8\<rparr>]\<rparr>]"

definition all_tiles_workload :: t_thread_conn_info where
  "all_tiles_workload =
     [\<lparr>source_node_inds = [110, 111, 112, 380, 381, 382, 950, 951, 952],
       tile_coords = [\<lparr>coord_x = 1, coord_y = 1\<rparr>, \<lparr>coord_x = 1, coord_y = 1\<rparr>,
                      \<lparr>coord_x = 1, coord_y = 1\<rparr>, \<lparr>coord_x = 3, coord_y = 8\<rparr>,
                      \<lparr>coord_x = 3, coord_y = 8\<rparr>, \<lparr>coord_x = 3, coord_y = 8\<rparr>,
                      \<lparr>coord_x = 9, coord_y = 5\<rparr>, \<lparr>coord_x = 9, coord_y = 5\<rparr>,
                      \<lparr>coord_x = 9, coord_y = 5\<rparr>]\<rparr>]"

lemma grid12_probability_workload:
  "build_thread_conn_info grid12_index grid12_arch tenth_opts grid12_settings PROBABILITY
     = Inr core_tile_workload"
  by code_simp

lemma grid12_enumerate_workload:
  "build_thread_conn_info grid12_index grid12_arch tenth_opts grid12_settings ENUMERATE
     = Inr all_tiles_workload"
  by code_simp

theorem core_filter_of_probability_phase_witness:
  "analyze_core tenth_opts
   \<and> build_thread_conn_info grid12_index grid12_arch tenth_opts grid12_settings PROBABILITY
       = Inr core_tile_workload
   \<and> build_thread_conn_info grid12_index grid12_arch (tenth_opts\<lparr>analyze_core := False\<rparr>)
         (grid12_settings\<lparr>test_tile_coords :=
            filter (\<lambda>c. \<not> outside_core c (grid_size_x grid12_arch) (grid_size_y grid12_arch))
              (test_tile_coords grid12_settings)\<rparr>) PROBABILITY
       = Inr core_tile_workload
   \<and> \<not> outside_core \<lparr>coord_x = 3, coord_y = 8\<rparr> 12 12
   \<and> build_thread_conn_info grid12_index grid12_arch (tenth_opts\<lparr>analyze_core := False\<rparr>)
         grid12_settings ENUMERATE
       = Inr all_tiles_workload"
proof -
  have a: "analyze_core tenth_opts" by (simp add: tenth_opts_def)
  from core_filter_of_probability_phase [OF a, of grid12_index grid12_arch grid12_settings
      "\<lparr>coord_x = 3, coord_y = 8\<rparr>"]
    a grid12_probability_workload grid12_enumerate_workload
  show ?thesis by simp
qed

text \<open>
  The claim as it was stated has the core filter in both phases.  In the ENUMERATE phase
  the tiles (1,1) and (9,5), which lie outside the core of the 12 by 12 grid, contribute
  their sources although \<^verbatim>\<open>analyze_core\<close> is set: the workload is not the workload of the
  tiles of the core.
\<close>

theorem core_filter_both_phases_counterexample:
  "analyze_core tenth_opts
   \<and> outside_core \<lparr>coord_x = 1, coord_y = 1\<rparr> (grid_size_x grid12_arch) (grid_size_y grid12_arch)
   \<and> build_thread_conn_info grid12_index grid12_arch tenth_opts grid12_settings ENUMERATE
       = Inr all_tiles_workload
   \<and> \<lparr>coord_x = 1, coord_y = 1\<rparr> \<in> set (tile_coords (all_tiles_workload ! 0))
   \<and> build_thread_conn_info grid12_index grid12_arch tenth_opts grid12_settings ENUMERATE
       \<noteq> build_thread_conn_info grid12_index grid12_arch (tenth_opts\<lparr>analyze_core := False\<rparr>)
           (grid12_settings\<lparr>test_tile_coords :=
              filter (\<lambda>c. \<not> outside_core c (grid_size_x grid12_arch) (grid_size_y grid12_arch))
                (test_tile_coords grid12_settings)\<rparr>) ENUMERATE"
proof -
  have a: "analyze_core tenth_opts" by (simp add: tenth_opts_def)
  have b: "outside_core \<lparr>coord_x = 1, coord_y = 1\<rparr> (grid_size_x grid12_arch) (grid_size_y grid12_arch)"
    by (simp add: outside_core_def CORE_OFFSET_def grid12_arch_def)
  have c: "\<lparr>coord_x = 1, coord_y = 1\<rparr> \<in> set (tile_coords (all_tiles_workload ! 0))"
    by (simp add: all_tiles_workload_def)
  have d: "build_thread_conn_info grid12_index grid12_arch (tenth_opts\<lparr>analyze_core := False\<rparr>)
           (grid12_settings\<lparr>test_tile_coords :=
              filter (\<lambda>c. \<not> outside_core c (grid_size_x grid12_arch) (grid_size_y grid12_arch))
                (test_tile_coords grid12_settings)\<rparr>) ENUMERATE
           = Inr core_tile_workload"
    by code_simp
  have e: "all_tiles_workload \<noteq> core_tile_workload"
    by (simp add: all_tiles_workload_def core_tile_workload_def)
  from a b c d e grid12_enumerate_workload show ?thesis by simp
qed

end
